theory Spec2Isabelle
  imports Main "HOL-Library.Word" "HOL-Library.Signed_Division" "HOL-Library.Monad_Syntax"
    "HOL-Library.Sublist"
begin

section \<open>Machine integers\<close>

text \<open>
  Go's \<^verbatim>\<open>int64\<close> and \<^verbatim>\<open>uint64\<close> are 64-bit words: \<open>+\<close>, \<open>-\<close> and \<open>*\<close> wrap around, and a
  conversion between the two keeps the bit pattern. Go's \<^verbatim>\<open>/\<close> and \<^verbatim>\<open>%\<close> on signed
  integers truncate towards zero (\<open>sdiv\<close> and \<open>smod\<close> on \<open>int\<close>), unlike HOL's \<open>div\<close> and
  \<open>mod\<close>.
\<close>

type_synonym int64 = "64 word"
type_synonym uint64 = "64 word"

text \<open>Go's \<^verbatim>\<open>int\<close>, on the 64-bit platforms the provider is built for.\<close>

type_synonym go_int = "64 word"

definition int64_quo :: "int64 \<Rightarrow> int64 \<Rightarrow> int64" where
  "int64_quo a b = word_of_int (sint a sdiv sint b)"

definition int64_rem :: "int64 \<Rightarrow> int64 \<Rightarrow> int64" where
  "int64_rem a b = word_of_int (sint a smod sint b)"

section \<open>Rule precedence encoding\<close>

text \<open>
  \<^verbatim>\<open>const rulePrecedenceFactor int64 = 1000\<close>
\<close>

definition rulePrecedenceFactor :: int64 where
  "rulePrecedenceFactor = 1000"

text \<open>
  \<^verbatim>\<open>hashCodeString\<close> is defined elsewhere in the provider package; both functions take it
  as their first argument, already converted by \<^verbatim>\<open>int64(...)\<close>.

  \<^verbatim>\<open>return provided*rulePrecedenceFactor + int64(hashCodeString(ruleName))%rulePrecedenceFactor\<close>
\<close>

definition providerToApiRulePrecedence :: "(string \<Rightarrow> int64) \<Rightarrow> int64 \<Rightarrow> string \<Rightarrow> int64" where
  "providerToApiRulePrecedence hashCodeString provided ruleName =
     provided * rulePrecedenceFactor + int64_rem (hashCodeString ruleName) rulePrecedenceFactor"

text \<open>
  \<^verbatim>\<open>return (int64(apiPrecedence) - int64(hashCodeString(ruleName))%rulePrecedenceFactor) / rulePrecedenceFactor\<close>
\<close>

definition apiToProviderRulePrecedence :: "(string \<Rightarrow> int64) \<Rightarrow> uint64 \<Rightarrow> string \<Rightarrow> int64" where
  "apiToProviderRulePrecedence hashCodeString apiPrecedence ruleName =
     int64_quo (scast apiPrecedence - int64_rem (hashCodeString ruleName) rulePrecedenceFactor)
       rulePrecedenceFactor"

text \<open>
  The formula as the specification words it, over the mathematical integers:
  \<^verbatim>\<open>provided*factor + hash(name)%factor\<close>, the remainder truncating as Go's does.
\<close>

definition spec_precedence_formula :: "int \<Rightarrow> int \<Rightarrow> int \<Rightarrow> int" where
  "spec_precedence_formula provided factor hash = provided * factor + hash smod factor"

text \<open>A hash function for evaluating the encoding on concrete rule names.\<close>

definition sample_hashCodeString :: "string \<Rightarrow> int64" where
  "sample_hashCodeString s = word_of_int (int (length s) * 123456)"

section \<open>The Go library functions the adapter calls\<close>

text \<open>
  \<^verbatim>\<open>strings.Contains(s, substr)\<close>: \<open>substr\<close> occurs at some position of \<open>s\<close>.
\<close>

fun strings_Contains :: "string \<Rightarrow> string \<Rightarrow> bool" where
  "strings_Contains [] substr = (substr = [])"
| "strings_Contains (c # s) substr = (prefix substr (c # s) \<or> strings_Contains s substr)"

text \<open>
  \<^verbatim>\<open>strings.Split(s, sep)\<close> for a separator of one byte (the adapter splits on \<^verbatim>\<open>","\<close> only):
  the pieces between the separators, empty pieces included; the empty string gives one
  empty piece.
\<close>

fun strings_Split :: "string \<Rightarrow> char \<Rightarrow> string list" where
  "strings_Split [] sep = [[]]"
| "strings_Split (c # s) sep =
     (if c = sep then [] # strings_Split s sep
      else (case strings_Split s sep of
              [] \<Rightarrow> [[c]]
            | w # ws \<Rightarrow> (c # w) # ws))"

text \<open>
  \<^verbatim>\<open>strings.SplitN(s, sep, 2)\<close> for a separator of one byte: at most two pieces, split at
  the first separator; the second piece is the unsplit remainder.
\<close>

definition strings_SplitN2 :: "string \<Rightarrow> char \<Rightarrow> string list" where
  "strings_SplitN2 s sep =
     (if sep \<in> set s
      then [takeWhile (\<lambda>c. c \<noteq> sep) s, tl (dropWhile (\<lambda>c. c \<noteq> sep) s)]
      else [s])"

text \<open>\<^verbatim>\<open>strings.Join(elems, sep)\<close>.\<close>

fun strings_Join :: "string list \<Rightarrow> string \<Rightarrow> string" where
  "strings_Join [] sep = []"
| "strings_Join [a] sep = a"
| "strings_Join (a # b # elems) sep = a @ sep @ strings_Join (b # elems) sep"

text \<open>
  Error values. \<open>Errorf msg\<close> is \<^verbatim>\<open>fmt.Errorf\<close> with a format that wraps nothing,
  \<open>Errorf_w msg err\<close> is \<^verbatim>\<open>fmt.Errorf("...: %w", ..., err)\<close>: \<open>msg\<close> is the formatted text
  before the \<^verbatim>\<open>%w\<close> verb, which ends every wrapping format of the adapter, and \<open>err\<close> is
  the wrapped error. \<open>Error\<close> is the method \<^verbatim>\<open>err.Error()\<close>.
\<close>

datatype go_error = Errorf string | Errorf_w string go_error

fun Error :: "go_error \<Rightarrow> string" where
  "Error (Errorf msg) = msg"
| "Error (Errorf_w msg err) = msg @ Error err"

text \<open>
  \<^verbatim>\<open>diag.Diagnostics\<close> and \<^verbatim>\<open>diag.FromErr\<close> of the Terraform SDK; \<^verbatim>\<open>nil\<close> diagnostics are
  the empty list. The adapter calls \<^verbatim>\<open>FromErr\<close> on non-nil errors only.
\<close>

datatype Severity = SeverityError | SeverityWarning

record Diagnostic =
  Severity :: Severity
  Summary :: string

type_synonym Diagnostics = "Diagnostic list"

definition diag_FromErr :: "go_error \<Rightarrow> Diagnostics" where
  "diag_FromErr err = [\<lparr>Severity = SeverityError, Summary = Error err\<rparr>]"

section \<open>Dynamically typed values\<close>

text \<open>
  A value of \<^verbatim>\<open>interface{}\<close> with its dynamic type. \<^verbatim>\<open>[]string\<close> and \<^verbatim>\<open>[]interface{}\<close>
  are different dynamic types, and so are \<^verbatim>\<open>int\<close> and \<^verbatim>\<open>int64\<close>, and \<^verbatim>\<open>string\<close> and the
  named string types of the client library. A slice is the list of its elements (a nil
  slice is the empty list); a \<^verbatim>\<open>map[string]interface{}\<close> is a partial function.
\<close>

datatype go_value =
    VNil
  | VBool bool
  | VString string
  | VInt go_int
  | VInt64 int64
  | VStrings "string list"
  | VTeamsGatewayAction string
  | VTeamsFilterTypes "string list"
  | VList "go_value list"
  | VMap "string \<Rightarrow> go_value option"

text \<open>
  Type assertions \<^verbatim>\<open>v.(T)\<close>: \<open>None\<close> is the run-time panic of an assertion that fails.
  Throughout, a result of type \<open>'a option\<close> is \<open>None\<close> exactly when the Go code panics.
\<close>

fun assert_bool :: "go_value \<Rightarrow> bool option" where
  "assert_bool (VBool b) = Some b"
| "assert_bool _ = None"

fun assert_string :: "go_value \<Rightarrow> string option" where
  "assert_string (VString s) = Some s"
| "assert_string _ = None"

fun assert_int :: "go_value \<Rightarrow> go_int option" where
  "assert_int (VInt i) = Some i"
| "assert_int _ = None"

fun assert_list :: "go_value \<Rightarrow> go_value list option" where
  "assert_list (VList xs) = Some xs"
| "assert_list _ = None"

fun assert_map :: "go_value \<Rightarrow> (string \<Rightarrow> go_value option) option" where
  "assert_map (VMap m) = Some m"
| "assert_map _ = None"

text \<open>\<^verbatim>\<open>m[key]\<close>: a missing key reads as the nil interface value.\<close>

definition index_map :: "(string \<Rightarrow> go_value option) \<Rightarrow> string \<Rightarrow> go_value" where
  "index_map m key = (case m key of None \<Rightarrow> VNil | Some v \<Rightarrow> v)"

text \<open>
  \<^verbatim>\<open>for _, x := range xs { ys = append(ys, x.(string)) }\<close>: the loop panics at the first
  element that is no string.
\<close>

fun assert_strings :: "go_value list \<Rightarrow> string list option" where
  "assert_strings [] = Some []"
| "assert_strings (x # xs) = do {
     y \<leftarrow> assert_string x;
     ys \<leftarrow> assert_strings xs;
     Some (y # ys)
   }"

section \<open>The client library's structs\<close>

text \<open>A pointer or a map that may be nil.\<close>

datatype 'a nilable = GoNil | NonNil 'a

text \<open>\<^verbatim>\<open>time.Duration\<close> counts nanoseconds in an \<^verbatim>\<open>int64\<close>.\<close>

type_synonym Duration = int64

text \<open>\<^verbatim>\<open>http.Header\<close> is \<^verbatim>\<open>map[string][]string\<close>.\<close>

type_synonym http_Header = "(string \<Rightarrow> string list option) nilable"

record TeamsL4OverrideSettings =
  IP :: string
  Port :: go_int

record TeamsBISOAdminControlSettings =
  DisablePrinting :: bool
  DisableCopyPaste :: bool
  DisableDownload :: bool
  DisableUpload :: bool
  DisableKeyboard :: bool

record TeamsCheckSessionSettings =
  Enforce :: bool
  Duration :: Duration

record TeamsRuleSettings =
  BlockPageEnabled :: bool
  BlockReason :: string
  OverrideIPs :: "string list"
  OverrideHost :: string
  L4Override :: "TeamsL4OverrideSettings nilable"
  BISOAdminControls :: "TeamsBISOAdminControlSettings nilable"
  CheckSession :: "TeamsCheckSessionSettings nilable"
  AddHeaders :: http_Header
  InsecureDisableDNSSECValidation :: bool

text \<open>The fields of \<^verbatim>\<open>cloudflare.TeamsRule\<close> that the adapter reads or writes.\<close>

record TeamsRule =
  ID :: string
  Name :: string
  Description :: string
  Precedence :: uint64
  Enabled :: bool
  Action :: string
  Filters :: "string list"
  Traffic :: string
  Identity :: string
  DevicePosture :: string
  Version :: uint64
  RuleSettings :: TeamsRuleSettings

text \<open>The zero value of \<^verbatim>\<open>cloudflare.TeamsRuleSettings\<close>.\<close>

definition zero_TeamsRuleSettings :: TeamsRuleSettings where
  "zero_TeamsRuleSettings =
     \<lparr>BlockPageEnabled = False, BlockReason = [], OverrideIPs = [], OverrideHost = [],
      L4Override = GoNil, BISOAdminControls = GoNil, CheckSession = GoNil,
      AddHeaders = GoNil, InsecureDisableDNSSECValidation = False\<rparr>"

section \<open>Flatten and inflate\<close>

text \<open>\<^verbatim>\<open>flattenTeamsL4Override\<close>, \<^verbatim>\<open>inflateTeamsL4Override\<close>.\<close>

definition flattenTeamsL4Override :: "TeamsL4OverrideSettings nilable \<Rightarrow> go_value" where
  "flattenTeamsL4Override settings =
     (case settings of
        GoNil \<Rightarrow> VList []
      | NonNil s \<Rightarrow> VList [VMap [''ip'' \<mapsto> VString (IP s), ''port'' \<mapsto> VInt (Port s)]])"

definition inflateTeamsL4Override :: "go_value \<Rightarrow> TeamsL4OverrideSettings nilable option" where
  "inflateTeamsL4Override settings = do {
     settingsList \<leftarrow> assert_list settings;
     if length settingsList \<noteq> 1 then Some GoNil
     else do {
       settingsMap \<leftarrow> assert_map (settingsList ! 0);
       ip \<leftarrow> assert_string (index_map settingsMap ''ip'');
       port \<leftarrow> assert_int (index_map settingsMap ''port'');
       Some (NonNil \<lparr>IP = ip, Port = port\<rparr>)
     }
   }"

text \<open>\<^verbatim>\<open>flattenTeamsRuleBisoAdminControls\<close>, \<^verbatim>\<open>inflateTeamsRuleBisoAdminControls\<close>.\<close>

definition flattenTeamsRuleBisoAdminControls ::
  "TeamsBISOAdminControlSettings nilable \<Rightarrow> go_value" where
  "flattenTeamsRuleBisoAdminControls settings =
     (case settings of
        GoNil \<Rightarrow> VList []
      | NonNil s \<Rightarrow> VList [VMap
          [''disable_printing'' \<mapsto> VBool (DisablePrinting s),
           ''disable_copy_paste'' \<mapsto> VBool (DisableCopyPaste s),
           ''disable_download'' \<mapsto> VBool (DisableDownload s),
           ''disable_upload'' \<mapsto> VBool (DisableUpload s),
           ''disable_keyboard'' \<mapsto> VBool (DisableKeyboard s)]])"

definition inflateTeamsRuleBisoAdminControls ::
  "go_value \<Rightarrow> TeamsBISOAdminControlSettings nilable option" where
  "inflateTeamsRuleBisoAdminControls settings = do {
     settingsList \<leftarrow> assert_list settings;
     if length settingsList \<noteq> 1 then Some GoNil
     else do {
       settingsMap \<leftarrow> assert_map (settingsList ! 0);
       disablePrinting \<leftarrow> assert_bool (index_map settingsMap ''disable_printing'');
       disableCopyPaste \<leftarrow> assert_bool (index_map settingsMap ''disable_copy_paste'');
       disableDownload \<leftarrow> assert_bool (index_map settingsMap ''disable_download'');
       disableUpload \<leftarrow> assert_bool (index_map settingsMap ''disable_upload'');
       disableKeyboard \<leftarrow> assert_bool (index_map settingsMap ''disable_keyboard'');
       Some (NonNil \<lparr>DisablePrinting = disablePrinting, DisableCopyPaste = disableCopyPaste,
         DisableDownload = disableDownload, DisableUpload = disableUpload,
         DisableKeyboard = disableKeyboard\<rparr>)
     }
   }"

text \<open>
  \<^verbatim>\<open>flattenTeamsCheckSessionSettings\<close>, \<^verbatim>\<open>inflateTeamsCheckSessionSettings\<close>. The standard
  library's \<^verbatim>\<open>Duration.String\<close> and \<^verbatim>\<open>time.ParseDuration\<close> are their first arguments.
\<close>

definition flattenTeamsCheckSessionSettings ::
  "(Duration \<Rightarrow> string) \<Rightarrow> TeamsCheckSessionSettings nilable \<Rightarrow> go_value" where
  "flattenTeamsCheckSessionSettings Duration_String settings =
     (case settings of
        GoNil \<Rightarrow> VList []
      | NonNil s \<Rightarrow>
          (let duration = Duration_String (Duration s)
           in VList [VMap [''enforce'' \<mapsto> VBool (Enforce s), ''duration'' \<mapsto> VString duration]]))"

definition inflateTeamsCheckSessionSettings ::
  "(string \<Rightarrow> go_error + Duration) \<Rightarrow> go_value \<Rightarrow> TeamsCheckSessionSettings nilable option" where
  "inflateTeamsCheckSessionSettings time_ParseDuration settings = do {
     settingsList \<leftarrow> assert_list settings;
     if length settingsList \<noteq> 1 then Some GoNil
     else do {
       settingsMap \<leftarrow> assert_map (settingsList ! 0);
       enforce \<leftarrow> assert_bool (index_map settingsMap ''enforce'');
       durationString \<leftarrow> assert_string (index_map settingsMap ''duration'');
       (case time_ParseDuration durationString of
          Inl err \<Rightarrow> Some GoNil
        | Inr dur \<Rightarrow> Some (NonNil \<lparr>Enforce = enforce, Duration = dur\<rparr>))
     }
   }"

text \<open>
  \<^verbatim>\<open>inflateTeamsAddHeaders\<close>: the loop over the keys gives every key whose value is a
  string the pieces of that string, and skips the others. The result is never nil.
\<close>

definition inflateTeamsAddHeaders :: "go_value \<Rightarrow> http_Header option" where
  "inflateTeamsAddHeaders settings = do {
     settingsMap \<leftarrow> assert_map settings;
     Some (NonNil (\<lambda>key.
       (case settingsMap key of
          Some (VString v) \<Rightarrow> Some (strings_Split v CHR '','')
        | _ \<Rightarrow> None)))
   }"

text \<open>\<^verbatim>\<open>flattenTeamsAddHeaders\<close> returns \<^verbatim>\<open>interface{}\<close>: nil for a nil header.\<close>

definition flattenTeamsAddHeaders :: "http_Header \<Rightarrow> go_value" where
  "flattenTeamsAddHeaders settings =
     (case settings of
        GoNil \<Rightarrow> VNil
      | NonNil h \<Rightarrow> VMap (\<lambda>name.
          (case h name of
             None \<Rightarrow> None
           | Some value \<Rightarrow> Some (VString (strings_Join value '','')))))"

text \<open>
  \<^verbatim>\<open>flattenTeamsRuleSettings\<close>. Its callers pass the address of a struct, never nil.
\<close>

definition flattenTeamsRuleSettings :: "(Duration \<Rightarrow> string) \<Rightarrow> TeamsRuleSettings \<Rightarrow> go_value" where
  "flattenTeamsRuleSettings Duration_String settings =
     VList [VMap
       [''block_page_enabled'' \<mapsto> VBool (BlockPageEnabled settings),
        ''block_page_reason'' \<mapsto> VString (BlockReason settings),
        ''override_ips'' \<mapsto> VStrings (OverrideIPs settings),
        ''override_host'' \<mapsto> VString (OverrideHost settings),
        ''l4override'' \<mapsto> flattenTeamsL4Override (L4Override settings),
        ''biso_admin_controls'' \<mapsto> flattenTeamsRuleBisoAdminControls (BISOAdminControls settings),
        ''check_session'' \<mapsto>
           flattenTeamsCheckSessionSettings Duration_String (CheckSession settings),
        ''add_headers'' \<mapsto> flattenTeamsAddHeaders (AddHeaders settings),
        ''insecure_disable_dnssec_validation'' \<mapsto>
           VBool (InsecureDisableDNSSECValidation settings)]]"

text \<open>\<^verbatim>\<open>inflateTeamsRuleSettings\<close>.\<close>

definition inflateTeamsRuleSettings ::
  "(string \<Rightarrow> go_error + Duration) \<Rightarrow> go_value \<Rightarrow> TeamsRuleSettings nilable option" where
  "inflateTeamsRuleSettings time_ParseDuration settings = do {
     settingsList \<leftarrow> assert_list settings;
     if length settingsList \<noteq> 1 then Some GoNil
     else do {
       settingsMap \<leftarrow> assert_map (settingsList ! 0);
       enabled \<leftarrow> assert_bool (index_map settingsMap ''block_page_enabled'');
       reason \<leftarrow> assert_string (index_map settingsMap ''block_page_reason'');
       ips \<leftarrow> assert_list (index_map settingsMap ''override_ips'');
       overrideIPs \<leftarrow> assert_strings ips;
       overrideHost \<leftarrow> assert_string (index_map settingsMap ''override_host'');
       l4 \<leftarrow> assert_list (index_map settingsMap ''l4override'');
       l4Override \<leftarrow> inflateTeamsL4Override (VList l4);
       biso \<leftarrow> assert_list (index_map settingsMap ''biso_admin_controls'');
       bisoAdminControls \<leftarrow> inflateTeamsRuleBisoAdminControls (VList biso);
       cs \<leftarrow> assert_list (index_map settingsMap ''check_session'');
       checkSessionSettings \<leftarrow> inflateTeamsCheckSessionSettings time_ParseDuration (VList cs);
       hs \<leftarrow> assert_map (index_map settingsMap ''add_headers'');
       addHeaders \<leftarrow> inflateTeamsAddHeaders (VMap hs);
       insecureDisableDNSSECValidation \<leftarrow>
         assert_bool (index_map settingsMap ''insecure_disable_dnssec_validation'');
       Some (NonNil
         \<lparr>BlockPageEnabled = enabled,
          BlockReason = reason,
          OverrideIPs = overrideIPs,
          OverrideHost = overrideHost,
          L4Override = l4Override,
          BISOAdminControls = bisoAdminControls,
          CheckSession = checkSessionSettings,
          AddHeaders = addHeaders,
          InsecureDisableDNSSECValidation = insecureDisableDNSSECValidation\<rparr>)
     }
   }"

text \<open>
  Values of \<^verbatim>\<open>Duration.String\<close> and \<^verbatim>\<open>time.ParseDuration\<close> at two durations, for
  evaluating the conversions on concrete settings.
\<close>

definition sample_Duration_String :: "Duration \<Rightarrow> string" where
  "sample_Duration_String d =
     (if d = 0 then ''0s'' else if d = 300000000000 then ''5m0s'' else ''unlisted'')"

definition sample_ParseDuration :: "string \<Rightarrow> go_error + Duration" where
  "sample_ParseDuration s =
     (if s = ''0s'' then Inr 0
      else if s = ''5m0s'' then Inr 300000000000
      else Inl (Errorf (''time: invalid duration '' @ s)))"

text \<open>
  \<^verbatim>\<open>flattenTeamsRuleSettings\<close> stores \<^verbatim>\<open>override_ips\<close> as a \<^verbatim>\<open>[]string\<close>, and
  \<^verbatim>\<open>inflateTeamsRuleSettings\<close> asserts a \<^verbatim>\<open>[]interface{}\<close> there. \<open>retype_override_ips\<close>
  is the flattened block with that one entry re-typed as the \<^verbatim>\<open>[]interface{}\<close> of the same
  strings, every other entry as it is.
\<close>

fun as_interface_list :: "go_value \<Rightarrow> go_value" where
  "as_interface_list (VStrings xs) = VList (map VString xs)"
| "as_interface_list v = v"

fun retype_override_ips :: "go_value \<Rightarrow> go_value" where
  "retype_override_ips (VList [VMap m]) =
     VList [VMap (m(''override_ips'' := map_option as_interface_list (m ''override_ips'')))]"
| "retype_override_ips v = v"


definition comma_TeamsRuleSettings :: TeamsRuleSettings where
  "comma_TeamsRuleSettings =
     zero_TeamsRuleSettings\<lparr>AddHeaders := NonNil [''X-Team'' \<mapsto> [''red,blue'']]\<rparr>"

section \<open>Resource data, the client and the environment\<close>

text \<open>
  \<^verbatim>\<open>schema.ResourceData\<close>: the resource ID and the attributes by name. \<^verbatim>\<open>d.Get\<close> reads an
  attribute (nil when there is none), \<^verbatim>\<open>d.SetId\<close> writes the ID. \<^verbatim>\<open>d.Set\<close> checks the value
  against the resource's schema, which is defined elsewhere in the provider package:
  \<open>schema_Set key v\<close> is either the error of a value the schema refuses at \<open>key\<close> or the
  value as the state stores it.
\<close>

record ResourceData =
  Id :: string
  attrs :: "string \<Rightarrow> go_value option"

definition d_Get :: "ResourceData \<Rightarrow> string \<Rightarrow> go_value" where
  "d_Get d key = index_map (attrs d) key"

definition d_SetId :: "ResourceData \<Rightarrow> string \<Rightarrow> ResourceData" where
  "d_SetId d v = d\<lparr>Id := v\<rparr>"

definition d_Set ::
  "(string \<Rightarrow> go_value \<Rightarrow> go_error + go_value) \<Rightarrow> ResourceData \<Rightarrow> string \<Rightarrow> go_value
    \<Rightarrow> go_error + ResourceData" where
  "d_Set schema_Set d key v =
     (case schema_Set key v of
        Inl err \<Rightarrow> Inl err
      | Inr stored \<Rightarrow> Inr (d\<lparr>attrs := (attrs d)(key \<mapsto> stored)\<rparr>))"

text \<open>
  What surrounds the adapter: the provider's \<^verbatim>\<open>hashCodeString\<close> (converted to \<^verbatim>\<open>int64\<close>),
  the standard library's \<^verbatim>\<open>time.ParseDuration\<close> and \<^verbatim>\<open>Duration.String\<close>, the text the
  \<^verbatim>\<open>%q\<close> verb prints for a string, the schema's \<^verbatim>\<open>d.Set\<close> check, and the four methods of
  \<^verbatim>\<open>*cloudflare.API\<close> that the adapter calls. A client method answers from the remote
  state \<open>'c\<close> and may change it; its answer is an error or a rule (\<^verbatim>\<open>TeamsDeleteRule\<close>: an
  error or nothing).
\<close>

record 'c environment =
  env_hashCodeString :: "string \<Rightarrow> int64"
  env_ParseDuration :: "string \<Rightarrow> go_error + Duration"
  env_Duration_String :: "Duration \<Rightarrow> string"
  env_Quote :: "string \<Rightarrow> string"
  env_schema_Set :: "string \<Rightarrow> go_value \<Rightarrow> go_error + go_value"
  client_TeamsRule :: "string \<Rightarrow> string \<Rightarrow> 'c \<Rightarrow> (go_error + TeamsRule) \<times> 'c"
  client_TeamsCreateRule :: "string \<Rightarrow> TeamsRule \<Rightarrow> 'c \<Rightarrow> (go_error + TeamsRule) \<times> 'c"
  client_TeamsUpdateRule ::
    "string \<Rightarrow> string \<Rightarrow> TeamsRule \<Rightarrow> 'c \<Rightarrow> (go_error + TeamsRule) \<times> 'c"
  client_TeamsDeleteRule :: "string \<Rightarrow> string \<Rightarrow> 'c \<Rightarrow> go_error option \<times> 'c"

text \<open>
  The world outside one invocation: the remote state and the requests sent to the client
  so far, in order.
\<close>

datatype client_call =
    Call_TeamsRule string string
  | Call_TeamsCreateRule string TeamsRule
  | Call_TeamsUpdateRule string string TeamsRule
  | Call_TeamsDeleteRule string string

record 'c world =
  server :: 'c
  calls :: "client_call list"

definition call_TeamsRule ::
  "'c environment \<Rightarrow> string \<Rightarrow> string \<Rightarrow> 'c world \<Rightarrow> (go_error + TeamsRule) \<times> 'c world" where
  "call_TeamsRule env accountID ruleID w =
     (case client_TeamsRule env accountID ruleID (server w) of
        (res, c) \<Rightarrow> (res, \<lparr>server = c, calls = calls w @ [Call_TeamsRule accountID ruleID]\<rparr>))"

definition call_TeamsCreateRule ::
  "'c environment \<Rightarrow> string \<Rightarrow> TeamsRule \<Rightarrow> 'c world \<Rightarrow> (go_error + TeamsRule) \<times> 'c world" where
  "call_TeamsCreateRule env accountID rule w =
     (case client_TeamsCreateRule env accountID rule (server w) of
        (res, c) \<Rightarrow> (res, \<lparr>server = c, calls = calls w @ [Call_TeamsCreateRule accountID rule]\<rparr>))"

definition call_TeamsUpdateRule ::
  "'c environment \<Rightarrow> string \<Rightarrow> string \<Rightarrow> TeamsRule \<Rightarrow> 'c world
    \<Rightarrow> (go_error + TeamsRule) \<times> 'c world" where
  "call_TeamsUpdateRule env accountID ruleID rule w =
     (case client_TeamsUpdateRule env accountID ruleID rule (server w) of
        (res, c) \<Rightarrow>
          (res, \<lparr>server = c, calls = calls w @ [Call_TeamsUpdateRule accountID ruleID rule]\<rparr>))"

definition call_TeamsDeleteRule ::
  "'c environment \<Rightarrow> string \<Rightarrow> string \<Rightarrow> 'c world \<Rightarrow> go_error option \<times> 'c world" where
  "call_TeamsDeleteRule env accountID ruleID w =
     (case client_TeamsDeleteRule env accountID ruleID (server w) of
        (res, c) \<Rightarrow> (res, \<lparr>server = c, calls = calls w @ [Call_TeamsDeleteRule accountID ruleID]\<rparr>))"

section \<open>The operations of the resource\<close>

text \<open>
  Every operation takes the environment, the resource data and the world, and returns its
  Go result with the resource data and the world as it leaves them; \<open>None\<close> is a panic.
  The \<^verbatim>\<open>tflog\<close> lines are left out: they reach neither the client nor the resource data.

  \<^verbatim>\<open>resourceCloudflareTeamsRuleRead\<close>.
\<close>

definition resourceCloudflareTeamsRuleRead ::
  "'c environment \<Rightarrow> ResourceData \<Rightarrow> 'c world \<Rightarrow> (Diagnostics \<times> ResourceData \<times> 'c world) option" where
  "resourceCloudflareTeamsRuleRead env d w = do {
     accountID \<leftarrow> assert_string (d_Get d ''account_id'');
     (case call_TeamsRule env accountID (Id d) w of
        (Inl err, w') \<Rightarrow>
          if strings_Contains (Error err) ''invalid rule id''
          then Some ([], d_SetId d [], w')
          else Some (diag_FromErr
            (Errorf_w (''error finding Teams Rule '' @ env_Quote env (Id d) @ '': '') err), d, w')
      | (Inr rule, w') \<Rightarrow>
     (case d_Set (env_schema_Set env) d ''name'' (VString (Name rule)) of
        Inl _ \<Rightarrow> Some (diag_FromErr (Errorf ''error parsing rule name''), d, w')
      | Inr d \<Rightarrow>
     (case d_Set (env_schema_Set env) d ''description'' (VString (Description rule)) of
        Inl _ \<Rightarrow> Some (diag_FromErr (Errorf ''error parsing rule description''), d, w')
      | Inr d \<Rightarrow>
     (case d_Set (env_schema_Set env) d ''precedence''
             (VInt64 (apiToProviderRulePrecedence (env_hashCodeString env)
                (Precedence rule) (Name rule))) of
        Inl _ \<Rightarrow> Some (diag_FromErr (Errorf ''error parsing rule precedence''), d, w')
      | Inr d \<Rightarrow>
     (case d_Set (env_schema_Set env) d ''enabled'' (VBool (Enabled rule)) of
        Inl _ \<Rightarrow> Some (diag_FromErr (Errorf ''error parsing rule enablement''), d, w')
      | Inr d \<Rightarrow>
     (case d_Set (env_schema_Set env) d ''action'' (VTeamsGatewayAction (Action rule)) of
        Inl _ \<Rightarrow> Some (diag_FromErr (Errorf ''error parsing rule action''), d, w')
      | Inr d \<Rightarrow>
     (case d_Set (env_schema_Set env) d ''filters'' (VTeamsFilterTypes (Filters rule)) of
        Inl _ \<Rightarrow> Some (diag_FromErr (Errorf ''error parsing rule filters''), d, w')
      | Inr d \<Rightarrow>
     (case d_Set (env_schema_Set env) d ''traffic'' (VString (Traffic rule)) of
        Inl _ \<Rightarrow> Some (diag_FromErr (Errorf ''error parsing rule traffic''), d, w')
      | Inr d \<Rightarrow>
     (case d_Set (env_schema_Set env) d ''identity'' (VString (Identity rule)) of
        Inl _ \<Rightarrow> Some (diag_FromErr (Errorf ''error parsing rule identity''), d, w')
      | Inr d \<Rightarrow>
     (case d_Set (env_schema_Set env) d ''device_posture'' (VString (DevicePosture rule)) of
        Inl _ \<Rightarrow> Some (diag_FromErr (Errorf ''error parsing rule device_posture''), d, w')
      | Inr d \<Rightarrow>
     (case d_Set (env_schema_Set env) d ''version'' (VInt64 (scast (Version rule))) of
        Inl _ \<Rightarrow> Some (diag_FromErr (Errorf ''error parsing rule version''), d, w')
      | Inr d \<Rightarrow>
     (case d_Set (env_schema_Set env) d ''rule_settings''
             (flattenTeamsRuleSettings (env_Duration_String env) (RuleSettings rule)) of
        Inl _ \<Rightarrow> Some (diag_FromErr (Errorf ''error parsing rule settings''), d, w')
      | Inr d \<Rightarrow> Some ([], d, w')))))))))))))
   }"

text \<open>
  \<^verbatim>\<open>resourceCloudflareTeamsRuleCreate\<close>, up to the client call: the account ID and the
  rule \<^verbatim>\<open>newTeamsRule\<close> built from the resource data.
\<close>

definition Create_newTeamsRule ::
  "'c environment \<Rightarrow> ResourceData \<Rightarrow> (string \<times> TeamsRule) option" where
  "Create_newTeamsRule env d = do {
     accountID \<leftarrow> assert_string (d_Get d ''account_id'');
     settings \<leftarrow> inflateTeamsRuleSettings (env_ParseDuration env) (d_Get d ''rule_settings'');
     fs \<leftarrow> assert_list (d_Get d ''filters'');
     filters \<leftarrow> assert_strings fs;
     ruleName \<leftarrow> assert_string (d_Get d ''name'');
     precedence \<leftarrow> assert_int (d_Get d ''precedence'');
     let apiPrecedence =
       providerToApiRulePrecedence (env_hashCodeString env) (scast precedence) ruleName;
     description \<leftarrow> assert_string (d_Get d ''description'');
     enabled \<leftarrow> assert_bool (d_Get d ''enabled'');
     action \<leftarrow> assert_string (d_Get d ''action'');
     traffic \<leftarrow> assert_string (d_Get d ''traffic'');
     identity \<leftarrow> assert_string (d_Get d ''identity'');
     devicePosture \<leftarrow> assert_string (d_Get d ''device_posture'');
     version \<leftarrow> assert_int (d_Get d ''version'');
     let newTeamsRule =
       \<lparr>ID = [],
        Name = ruleName,
        Description = description,
        Precedence = ucast apiPrecedence,
        Enabled = enabled,
        Action = action,
        Filters = filters,
        Traffic = traffic,
        Identity = identity,
        DevicePosture = devicePosture,
        Version = ucast version,
        RuleSettings = zero_TeamsRuleSettings\<rparr>;
     Some (accountID,
       (case settings of
          GoNil \<Rightarrow> newTeamsRule
        | NonNil s \<Rightarrow> newTeamsRule\<lparr>RuleSettings := s\<rparr>))
   }"

text \<open>\<^verbatim>\<open>resourceCloudflareTeamsRuleCreate\<close>, from the client call on.\<close>

definition resourceCloudflareTeamsRuleCreate ::
  "'c environment \<Rightarrow> ResourceData \<Rightarrow> 'c world \<Rightarrow> (Diagnostics \<times> ResourceData \<times> 'c world) option" where
  "resourceCloudflareTeamsRuleCreate env d w = do {
     (accountID, newTeamsRule) \<leftarrow> Create_newTeamsRule env d;
     (case call_TeamsCreateRule env accountID newTeamsRule w of
        (Inl err, w') \<Rightarrow>
          Some (diag_FromErr
            (Errorf_w (''error creating Teams rule for account '' @ env_Quote env accountID @ '': '')
               err), d, w')
      | (Inr rule, w') \<Rightarrow> resourceCloudflareTeamsRuleRead env (d_SetId d (ID rule)) w')
   }"

text \<open>
  \<^verbatim>\<open>resourceCloudflareTeamsRuleUpdate\<close>, up to the client call: the account ID and the
  rule \<^verbatim>\<open>teamsRule\<close>, which carries the resource ID.
\<close>

definition Update_teamsRule ::
  "'c environment \<Rightarrow> ResourceData \<Rightarrow> (string \<times> TeamsRule) option" where
  "Update_teamsRule env d = do {
     accountID \<leftarrow> assert_string (d_Get d ''account_id'');
     settings \<leftarrow> inflateTeamsRuleSettings (env_ParseDuration env) (d_Get d ''rule_settings'');
     fs \<leftarrow> assert_list (d_Get d ''filters'');
     filters \<leftarrow> assert_strings fs;
     ruleName \<leftarrow> assert_string (d_Get d ''name'');
     precedence \<leftarrow> assert_int (d_Get d ''precedence'');
     let apiPrecedence =
       providerToApiRulePrecedence (env_hashCodeString env) (scast precedence) ruleName;
     description \<leftarrow> assert_string (d_Get d ''description'');
     enabled \<leftarrow> assert_bool (d_Get d ''enabled'');
     action \<leftarrow> assert_string (d_Get d ''action'');
     traffic \<leftarrow> assert_string (d_Get d ''traffic'');
     identity \<leftarrow> assert_string (d_Get d ''identity'');
     devicePosture \<leftarrow> assert_string (d_Get d ''device_posture'');
     version \<leftarrow> assert_int (d_Get d ''version'');
     let teamsRule =
       \<lparr>ID = Id d,
        Name = ruleName,
        Description = description,
        Precedence = ucast apiPrecedence,
        Enabled = enabled,
        Action = action,
        Filters = filters,
        Traffic = traffic,
        Identity = identity,
        DevicePosture = devicePosture,
        Version = ucast version,
        RuleSettings = zero_TeamsRuleSettings\<rparr>;
     Some (accountID,
       (case settings of
          GoNil \<Rightarrow> teamsRule
        | NonNil s \<Rightarrow> teamsRule\<lparr>RuleSettings := s\<rparr>))
   }"

text \<open>\<^verbatim>\<open>resourceCloudflareTeamsRuleUpdate\<close>, from the client call on.\<close>

definition resourceCloudflareTeamsRuleUpdate ::
  "'c environment \<Rightarrow> ResourceData \<Rightarrow> 'c world \<Rightarrow> (Diagnostics \<times> ResourceData \<times> 'c world) option" where
  "resourceCloudflareTeamsRuleUpdate env d w = do {
     (accountID, teamsRule) \<leftarrow> Update_teamsRule env d;
     (case call_TeamsUpdateRule env accountID (ID teamsRule) teamsRule w of
        (Inl err, w') \<Rightarrow>
          Some (diag_FromErr
            (Errorf_w (''error updating Teams rule for account '' @ env_Quote env accountID @ '': '')
               err), d, w')
      | (Inr updatedTeamsRule, w') \<Rightarrow>
          if ID updatedTeamsRule = []
          then Some (diag_FromErr
            (Errorf ''failed to find Teams Rule ID in update response; resource was empty''), d, w')
          else resourceCloudflareTeamsRuleRead env d w')
   }"

text \<open>\<^verbatim>\<open>resourceCloudflareTeamsRuleDelete\<close>.\<close>

definition resourceCloudflareTeamsRuleDelete ::
  "'c environment \<Rightarrow> ResourceData \<Rightarrow> 'c world \<Rightarrow> (Diagnostics \<times> ResourceData \<times> 'c world) option" where
  "resourceCloudflareTeamsRuleDelete env d w = do {
     let id = Id d;
     accountID \<leftarrow> assert_string (d_Get d ''account_id'');
     (case call_TeamsDeleteRule env accountID id w of
        (Some err, w') \<Rightarrow>
          Some (diag_FromErr
            (Errorf_w (''error deleting Teams Rule for account '' @ env_Quote env accountID @ '': '')
               err), d, w')
      | (None, w') \<Rightarrow> resourceCloudflareTeamsRuleRead env d w')
   }"

text \<open>
  \<^verbatim>\<open>resourceCloudflareTeamsRuleImport\<close> returns the list of imported resources or an
  error. It drops the error of \<^verbatim>\<open>d.Set\<close> and the diagnostics of the read.
\<close>

definition resourceCloudflareTeamsRuleImport ::
  "'c environment \<Rightarrow> ResourceData \<Rightarrow> 'c world
    \<Rightarrow> ((go_error + ResourceData list) \<times> ResourceData \<times> 'c world) option" where
  "resourceCloudflareTeamsRuleImport env d w =
     (let attributes = strings_SplitN2 (Id d) CHR ''/'' in
      if length attributes \<noteq> 2
      then Some (Inl (Errorf (''invalid id ('' @ [CHR 0x22] @ Id d @ [CHR 0x22]
             @ '') specified, should be in format '' @ [CHR 0x22] @ ''accountID/teamsRuleID''
             @ [CHR 0x22])), d, w)
      else do {
        let accountID = attributes ! 0;
        let teamsRuleID = attributes ! 1;
        let d = (case d_Set (env_schema_Set env) d ''account_id'' (VString accountID) of
                   Inl _ \<Rightarrow> d
                 | Inr d' \<Rightarrow> d');
        let d = d_SetId d teamsRuleID;
        (diags, d, w') \<leftarrow> resourceCloudflareTeamsRuleRead env d w;
        Some (Inr [d], d, w')
      })"

text \<open>
  \<^verbatim>\<open>resourceCloudflareTeamsRule\<close> returns the \<^verbatim>\<open>schema.Resource\<close>;
  \<^verbatim>\<open>resourceCloudflareTeamsRuleSchema\<close> is defined elsewhere in the provider package and is
  the argument here.
\<close>

record ('s, 'c) Resource =
  Schema :: 's
  ReadContext ::
    "'c environment \<Rightarrow> ResourceData \<Rightarrow> 'c world \<Rightarrow> (Diagnostics \<times> ResourceData \<times> 'c world) option"
  UpdateContext ::
    "'c environment \<Rightarrow> ResourceData \<Rightarrow> 'c world \<Rightarrow> (Diagnostics \<times> ResourceData \<times> 'c world) option"
  CreateContext ::
    "'c environment \<Rightarrow> ResourceData \<Rightarrow> 'c world \<Rightarrow> (Diagnostics \<times> ResourceData \<times> 'c world) option"
  DeleteContext ::
    "'c environment \<Rightarrow> ResourceData \<Rightarrow> 'c world \<Rightarrow> (Diagnostics \<times> ResourceData \<times> 'c world) option"
  Importer_StateContext ::
    "'c environment \<Rightarrow> ResourceData \<Rightarrow> 'c world
      \<Rightarrow> ((go_error + ResourceData list) \<times> ResourceData \<times> 'c world) option"

definition resourceCloudflareTeamsRule :: "'s \<Rightarrow> ('s, 'c) Resource" where
  "resourceCloudflareTeamsRule resourceCloudflareTeamsRuleSchema =
     \<lparr>Schema = resourceCloudflareTeamsRuleSchema,
      ReadContext = resourceCloudflareTeamsRuleRead,
      UpdateContext = resourceCloudflareTeamsRuleUpdate,
      CreateContext = resourceCloudflareTeamsRuleCreate,
      DeleteContext = resourceCloudflareTeamsRuleDelete,
      Importer_StateContext = resourceCloudflareTeamsRuleImport\<rparr>"

section \<open>An in-memory client\<close>

text \<open>
  A client over a store of rules by ID, for evaluating the operations: it refuses an empty
  account ID and a rule without a name, answers \<^verbatim>\<open>invalid rule id\<close> for an ID it does not
  hold, and names a created rule after its name. The schema accepts every value as it is,
  and \<^verbatim>\<open>%q\<close> puts a string without special characters between double quotes.
\<close>

type_synonym rule_store = "(string \<times> TeamsRule) list"

definition store_TeamsRule :: "string \<Rightarrow> string \<Rightarrow> rule_store \<Rightarrow> (go_error + TeamsRule) \<times> rule_store" where
  "store_TeamsRule accountID ruleID st =
     (if accountID = [] then (Inl (Errorf ''HTTP status 403: authentication error''), st)
      else (case map_of st ruleID of
              None \<Rightarrow> (Inl (Errorf ''HTTP status 400: invalid rule id''), st)
            | Some rule \<Rightarrow> (Inr rule, st)))"

definition store_TeamsCreateRule ::
  "string \<Rightarrow> TeamsRule \<Rightarrow> rule_store \<Rightarrow> (go_error + TeamsRule) \<times> rule_store" where
  "store_TeamsCreateRule accountID rule st =
     (if Name rule = [] then (Inl (Errorf ''HTTP status 400: rule name is required''), st)
      else (Inr (rule\<lparr>ID := ''rule-'' @ Name rule\<rparr>),
            (''rule-'' @ Name rule, rule\<lparr>ID := ''rule-'' @ Name rule\<rparr>) # st))"

definition store_TeamsUpdateRule ::
  "string \<Rightarrow> string \<Rightarrow> TeamsRule \<Rightarrow> rule_store \<Rightarrow> (go_error + TeamsRule) \<times> rule_store" where
  "store_TeamsUpdateRule accountID ruleID rule st =
     (case map_of st ruleID of
        None \<Rightarrow> (Inl (Errorf ''HTTP status 400: invalid rule id''), st)
      | Some old \<Rightarrow> (Inr rule, (ruleID, rule) # st))"

definition store_TeamsDeleteRule ::
  "string \<Rightarrow> string \<Rightarrow> rule_store \<Rightarrow> go_error option \<times> rule_store" where
  "store_TeamsDeleteRule accountID ruleID st =
     (case map_of st ruleID of
        None \<Rightarrow> (Some (Errorf ''HTTP status 400: invalid rule id''), st)
      | Some old \<Rightarrow> (None, filter (\<lambda>entry. fst entry \<noteq> ruleID) st))"

definition sample_environment :: "rule_store environment" where
  "sample_environment =
     \<lparr>env_hashCodeString = sample_hashCodeString,
      env_ParseDuration = sample_ParseDuration,
      env_Duration_String = sample_Duration_String,
      env_Quote = (\<lambda>s. [CHR 0x22] @ s @ [CHR 0x22]),
      env_schema_Set = (\<lambda>key v. Inr v),
      client_TeamsRule = store_TeamsRule,
      client_TeamsCreateRule = store_TeamsCreateRule,
      client_TeamsUpdateRule = store_TeamsUpdateRule,
      client_TeamsDeleteRule = store_TeamsDeleteRule\<rparr>"

text \<open>A stored rule, and the resource data of a rule before and after its creation.\<close>

definition sample_TeamsRule :: TeamsRule where
  "sample_TeamsRule =
     \<lparr>ID = ''rule-7'', Name = ''block-ads'', Description = ''no ads'', Precedence = 7104,
      Enabled = True, Action = ''block'', Filters = [''dns''], Traffic = ''any(dns.domains[*] == 1)'',
      Identity = [], DevicePosture = [], Version = 1, RuleSettings = zero_TeamsRuleSettings\<rparr>"

definition sample_attrs :: "string \<Rightarrow> go_value option" where
  "sample_attrs =
     [''account_id'' \<mapsto> VString ''acc-1'',
      ''name'' \<mapsto> VString ''block-ads'',
      ''description'' \<mapsto> VString ''no ads'',
      ''precedence'' \<mapsto> VInt 7,
      ''enabled'' \<mapsto> VBool True,
      ''action'' \<mapsto> VString ''block'',
      ''filters'' \<mapsto> VList [VString ''dns''],
      ''traffic'' \<mapsto> VString ''any(dns.domains[*] == 1)'',
      ''identity'' \<mapsto> VString [],
      ''device_posture'' \<mapsto> VString [],
      ''version'' \<mapsto> VInt 1,
      ''rule_settings'' \<mapsto> VList []]"

definition new_ResourceData :: ResourceData where
  "new_ResourceData = \<lparr>Id = [], attrs = sample_attrs\<rparr>"

definition stored_ResourceData :: ResourceData where
  "stored_ResourceData = \<lparr>Id = ''rule-7'', attrs = sample_attrs\<rparr>"

definition empty_world :: "rule_store world" where
  "empty_world = \<lparr>server = [], calls = []\<rparr>"

definition stored_world :: "rule_store world" where
  "stored_world = \<lparr>server = [(''rule-7'', sample_TeamsRule)], calls = []\<rparr>"

text \<open>
  Resource data for evaluating the error paths: without an account, without a rule name,
  and with an import ID.
\<close>

definition anonymous_ResourceData :: ResourceData where
  "anonymous_ResourceData = \<lparr>Id = ''rule-7'', attrs = sample_attrs(''account_id'' \<mapsto> VString [])\<rparr>"

definition nameless_ResourceData :: ResourceData where
  "nameless_ResourceData = \<lparr>Id = [], attrs = sample_attrs(''name'' \<mapsto> VString [])\<rparr>"

definition nameless_TeamsRule :: TeamsRule where
  "nameless_TeamsRule =
     \<lparr>ID = [], Name = [], Description = ''no ads'', Precedence = 7000,
      Enabled = True, Action = ''block'', Filters = [''dns''], Traffic = ''any(dns.domains[*] == 1)'',
      Identity = [], DevicePosture = [], Version = 1, RuleSettings = zero_TeamsRuleSettings\<rparr>"

definition import_ResourceData :: ResourceData where
  "import_ResourceData = \<lparr>Id = ''acc-1/rule-7'', attrs = Map.empty\<rparr>"

section \<open>Properties of the precedence encoding\<close>

lemma sint_rulePrecedenceFactor: "sint rulePrecedenceFactor = 1000"
  by (simp add: rulePrecedenceFactor_def)

lemma smod_1000_bounds: "- 1000 < (k::int) smod 1000" "(k::int) smod 1000 < 1000"
proof -
  have "0 \<le> \<bar>k\<bar> mod 1000" "\<bar>k\<bar> mod 1000 < 1000"
    by simp_all
  then show "- 1000 < k smod 1000" "k smod 1000 < 1000"
    by (auto simp add: signed_modulo_int_def sgn_if)
qed

lemma sint_int64_of_int:
  "- (2 ^ 63) \<le> k \<Longrightarrow> k < 2 ^ 63 \<Longrightarrow> sint (word_of_int k :: int64) = k"
  by (simp add: sint_sbintrunc' signed_take_bit_int_eq_self)

lemma sint_int64_rem_factor:
  "sint (int64_rem h rulePrecedenceFactor) = sint h smod 1000"
proof -
  have "- (2 ^ 63) \<le> sint h smod 1000" "sint h smod 1000 < 2 ^ 63"
    using smod_1000_bounds [of "sint h"] by simp_all
  then show ?thesis
    by (simp add: int64_rem_def sint_rulePrecedenceFactor sint_int64_of_int)
qed

lemma sint_providerToApi:
  "sint (providerToApiRulePrecedence hcs p name) =
     signed_take_bit 63 (sint p * 1000 + sint (hcs name) smod 1000)"
proof -
  have "sint (providerToApiRulePrecedence hcs p name) =
      signed_take_bit 63 (sint (p * rulePrecedenceFactor) + sint (hcs name) smod 1000)"
    by (simp add: providerToApiRulePrecedence_def sint_word_add sint_int64_rem_factor)
  also have "\<dots> = signed_take_bit 63 (signed_take_bit 63 (sint p * 1000) + sint (hcs name) smod 1000)"
    by (simp add: sint_word_mult sint_rulePrecedenceFactor)
  also have "\<dots> = signed_take_bit 63
      (signed_take_bit 63 (sint p * 1000) + signed_take_bit 63 (sint (hcs name) smod 1000))"
    using smod_1000_bounds [of "sint (hcs name)"] by (simp add: signed_take_bit_int_eq_self)
  also have "\<dots> = signed_take_bit 63 (sint p * 1000 + sint (hcs name) smod 1000)"
    by (rule signed_take_bit_add)
  finally show ?thesis .
qed

text \<open>
  C2. For every provided precedence and rule name the encoder returns
  \<open>provided * 1000 + hash rem 1000\<close> in 64-bit arithmetic, the remainder truncating towards
  zero: read as a signed integer, the result is the specification's formula
  \<open>provided*factor + hash(name)%factor\<close> at factor 1000, wrapped to 64 bits.
\<close>

theorem providerToApiRulePrecedence_formula:
  "providerToApiRulePrecedence hashCodeString provided ruleName =
     provided * 1000 + int64_rem (hashCodeString ruleName) 1000
   \<and> sint (int64_rem (hashCodeString ruleName) 1000) = sint (hashCodeString ruleName) smod 1000
   \<and> sint (providerToApiRulePrecedence hashCodeString provided ruleName) =
       signed_take_bit 63
         (spec_precedence_formula (sint provided) 1000 (sint (hashCodeString ruleName)))"
  using sint_int64_rem_factor [of "hashCodeString ruleName"]
    sint_providerToApi [of hashCodeString provided ruleName]
  by (simp add: providerToApiRulePrecedence_def rulePrecedenceFactor_def spec_precedence_formula_def)

text \<open>
  C1. Encoding then decoding returns the provided precedence: for every rule name whose
  hash is non-negative and every non-negative provided precedence \<open>p\<close> such that
  \<open>p * 1000\<close> plus the hash remainder fits in a signed 64-bit integer,
  \<open>apiToProviderRulePrecedence (providerToApiRulePrecedence p name) name = p\<close>. The
  hash function is arbitrary; the API's \<^verbatim>\<open>uint64\<close> carries the encoder's result unchanged.
\<close>

theorem precedence_roundtrip:
  assumes nonneg: "0 \<le> sint provided"
    and hash: "0 \<le> sint (hashCodeString ruleName)"
    and fits: "sint provided * 1000 + sint (hashCodeString ruleName) smod 1000 < 2 ^ 63"
  shows "apiToProviderRulePrecedence hashCodeString
           (ucast (providerToApiRulePrecedence hashCodeString provided ruleName)) ruleName
         = provided"
proof -
  let ?r = "sint (hashCodeString ruleName) smod 1000"
  let ?api = "providerToApiRulePrecedence hashCodeString provided ruleName"
  have r0: "0 \<le> ?r"
    using hash by (simp add: signed_modulo_int_def sgn_if)
  have api: "sint ?api = sint provided * 1000 + ?r"
    using nonneg r0 fits by (simp add: sint_providerToApi signed_take_bit_int_eq_self)
  have "sint (scast (ucast ?api :: uint64) - int64_rem (hashCodeString ruleName) rulePrecedenceFactor :: int64)
        = signed_take_bit 63 (sint ?api - ?r)"
    by (simp add: sint_word_diff sint_int64_rem_factor)
  also have "\<dots> = sint provided * 1000"
    using nonneg fits r0 by (simp add: api signed_take_bit_int_eq_self)
  finally have "apiToProviderRulePrecedence hashCodeString (ucast ?api) ruleName
      = word_of_int ((sint provided * 1000) sdiv 1000)"
    by (simp add: apiToProviderRulePrecedence_def int64_quo_def sint_rulePrecedenceFactor)
  also have "(sint provided * 1000) sdiv 1000 = sint provided"
    using nonneg by (simp add: signed_divide_int_def sgn_if)
  finally show ?thesis by simp
qed

theorem precedence_roundtrip_witness:
  "0 \<le> sint (7 :: int64) \<and> 0 \<le> sint (sample_hashCodeString ''block-ads'')
   \<and> sint (7 :: int64) * 1000 + sint (sample_hashCodeString ''block-ads'') smod 1000 < 2 ^ 63
   \<and> providerToApiRulePrecedence sample_hashCodeString 7 ''block-ads'' = 7104
   \<and> apiToProviderRulePrecedence sample_hashCodeString
        (ucast (providerToApiRulePrecedence sample_hashCodeString 7 ''block-ads'')) ''block-ads'' = 7"
  using precedence_roundtrip [of 7 sample_hashCodeString "''block-ads''"]
  by (simp add: sample_hashCodeString_def signed_modulo_int_def providerToApiRulePrecedence_def
      int64_rem_def rulePrecedenceFactor_def)

section \<open>Splitting and joining\<close>

lemma strings_Split_nonempty: "strings_Split s sep \<noteq> []"
  by (induction s) (auto split: list.splits)

lemma strings_Join_Cons:
  "strings_Join (a # elems) sep = (if elems = [] then a else a @ sep @ strings_Join elems sep)"
  by (cases elems) simp_all

lemma strings_Join_Split: "strings_Join (strings_Split s sep) [sep] = s"
proof (induction s)
  case Nil
  show ?case by simp
next
  case (Cons c s)
  obtain w ws where split: "strings_Split s sep = w # ws"
    using strings_Split_nonempty [of s sep] by (cases "strings_Split s sep") auto
  with Cons show ?case
    by (auto simp add: strings_Join_Cons)
qed




text \<open>
  \<open>strings_Contains\<close> is the sublist relation, and no piece of \<open>strings_Split\<close> holds the
  separator.
\<close>

lemma strings_Contains_sublist: "strings_Contains s substr \<longleftrightarrow> sublist substr s"
  by (induction s) (auto simp add: sublist_Cons_right)

lemma strings_Split_pieces: "w \<in> set (strings_Split s sep) \<Longrightarrow> sep \<notin> set w"
proof (induction s arbitrary: w)
  case Nil
  then show ?case by simp
next
  case (Cons c s)
  then show ?case
    by (cases "strings_Split s sep") (auto split: if_splits)
qed

section \<open>The add_headers conversion\<close>

text \<open>
  C10. Map to header and back is lossless: for every map whose values are all strings,
  \<open>inflateTeamsAddHeaders\<close> returns a header, and \<open>flattenTeamsAddHeaders\<close> of that header
  is the map again, since joining the pieces of a string with \<^verbatim>\<open>","\<close> restores the string.
\<close>

theorem add_headers_roundtrip:
  assumes "\<forall>key v. m key = Some v \<longrightarrow> (\<exists>s. v = VString s)"
  shows "\<exists>h. inflateTeamsAddHeaders (VMap m) = Some h \<and> flattenTeamsAddHeaders h = VMap m"
proof -
  have "(case (case m name of None \<Rightarrow> None | Some VNil \<Rightarrow> None | Some (VBool x) \<Rightarrow> None
         | Some (VString v) \<Rightarrow> Some (strings_Split v CHR '','') | Some _ \<Rightarrow> None) of
          None \<Rightarrow> None | Some value \<Rightarrow> Some (VString (strings_Join value '',''))) = m name" for name
  proof (cases "m name")
    case None
    then show ?thesis by simp
  next
    case (Some v)
    with assms obtain s where "v = VString s" by blast
    with Some show ?thesis by (simp add: strings_Join_Split)
  qed
  then show ?thesis
    by (simp add: inflateTeamsAddHeaders_def flattenTeamsAddHeaders_def)
qed

theorem add_headers_roundtrip_witness:
  "inflateTeamsAddHeaders (VMap [''X-Team'' \<mapsto> VString ''red,blue'', ''X-Empty'' \<mapsto> VString []])
     = Some (NonNil [''X-Team'' \<mapsto> [''red'', ''blue''], ''X-Empty'' \<mapsto> [[]]])
   \<and> (\<exists>h. inflateTeamsAddHeaders
          (VMap [''X-Team'' \<mapsto> VString ''red,blue'', ''X-Empty'' \<mapsto> VString []]) = Some h
        \<and> flattenTeamsAddHeaders h
          = VMap [''X-Team'' \<mapsto> VString ''red,blue'', ''X-Empty'' \<mapsto> VString []])"
proof -
  have vals: "\<forall>key v. [''X-Team'' \<mapsto> VString ''red,blue'', ''X-Empty'' \<mapsto> VString []] key = Some v
      \<longrightarrow> (\<exists>s. v = VString s)"
    by (auto split: if_splits)
  have "inflateTeamsAddHeaders (VMap [''X-Team'' \<mapsto> VString ''red,blue'', ''X-Empty'' \<mapsto> VString []])
     = Some (NonNil [''X-Team'' \<mapsto> [''red'', ''blue''], ''X-Empty'' \<mapsto> [[]]])"
    by (auto simp add: inflateTeamsAddHeaders_def)
  with add_headers_roundtrip [OF vals] show ?thesis
    by blast
qed

section \<open>Absent blocks\<close>

text \<open>
  C9. Every inflate helper of a nested block returns nil when its input list does not
  have exactly one element, and \<open>inflateTeamsCheckSessionSettings\<close> also returns nil when
  the block's \<^verbatim>\<open>duration\<close> string does not parse (the block holding a boolean \<^verbatim>\<open>enforce\<close>
  and a string \<^verbatim>\<open>duration\<close>, as the type assertions before the parse require).
\<close>

theorem inflate_nil_on_absence:
  "(length settingsList \<noteq> 1 \<longrightarrow>
      inflateTeamsRuleSettings time_ParseDuration (VList settingsList) = Some GoNil
    \<and> inflateTeamsRuleBisoAdminControls (VList settingsList) = Some GoNil
    \<and> inflateTeamsCheckSessionSettings time_ParseDuration (VList settingsList) = Some GoNil
    \<and> inflateTeamsL4Override (VList settingsList) = Some GoNil)
   \<and> (settingsMap ''enforce'' = Some (VBool enforce)
        \<and> settingsMap ''duration'' = Some (VString durationString)
        \<and> time_ParseDuration durationString = Inl err \<longrightarrow>
      inflateTeamsCheckSessionSettings time_ParseDuration (VList [VMap settingsMap]) = Some GoNil)"
  by (simp add: inflateTeamsRuleSettings_def inflateTeamsRuleBisoAdminControls_def
      inflateTeamsCheckSessionSettings_def inflateTeamsL4Override_def index_map_def)

theorem inflate_nil_on_absence_witness:
  "length ([] :: go_value list) \<noteq> 1
   \<and> inflateTeamsRuleSettings sample_ParseDuration (VList []) = Some GoNil
   \<and> inflateTeamsRuleBisoAdminControls (VList []) = Some GoNil
   \<and> inflateTeamsCheckSessionSettings sample_ParseDuration (VList []) = Some GoNil
   \<and> inflateTeamsL4Override (VList []) = Some GoNil
   \<and> [''enforce'' \<mapsto> VBool True, ''duration'' \<mapsto> VString ''soon''] ''enforce'' = Some (VBool True)
   \<and> [''enforce'' \<mapsto> VBool True, ''duration'' \<mapsto> VString ''soon''] ''duration'' = Some (VString ''soon'')
   \<and> sample_ParseDuration ''soon'' = Inl (Errorf ''time: invalid duration soon'')
   \<and> inflateTeamsCheckSessionSettings sample_ParseDuration
        (VList [VMap [''enforce'' \<mapsto> VBool True, ''duration'' \<mapsto> VString ''soon'']]) = Some GoNil"
  using inflate_nil_on_absence [of "[]" sample_ParseDuration
      "[''enforce'' \<mapsto> VBool True, ''duration'' \<mapsto> VString ''soon'']" True "''soon''"
      "Errorf ''time: invalid duration soon''"]
  by (simp add: sample_ParseDuration_def)

section \<open>Flatten, then inflate\<close>



lemma flattenTeamsL4Override_list: "\<exists>l. flattenTeamsL4Override x = VList l"
  by (cases x) (simp_all add: flattenTeamsL4Override_def)


lemma flattenTeamsRuleBisoAdminControls_list: "\<exists>l. flattenTeamsRuleBisoAdminControls x = VList l"
  by (cases x) (simp_all add: flattenTeamsRuleBisoAdminControls_def)


lemma flattenTeamsCheckSessionSettings_list:
  "\<exists>l. flattenTeamsCheckSessionSettings ds x = VList l"
  by (cases x) (simp_all add: flattenTeamsCheckSessionSettings_def)


text \<open>
  Applied to the flattened block as it is, \<open>inflateTeamsRuleSettings\<close> panics for every
  settings value: \<^verbatim>\<open>override_ips\<close> holds a \<^verbatim>\<open>[]string\<close>, and the assertion
  \<^verbatim>\<open>.([]interface{})\<close> fails.
\<close>

lemma inflate_flatten_panics:
  "inflateTeamsRuleSettings pd (flattenTeamsRuleSettings ds s) = None"
  by (simp add: inflateTeamsRuleSettings_def flattenTeamsRuleSettings_def index_map_def)

text \<open>
  With \<^verbatim>\<open>override_ips\<close> re-typed, a header value that contains a comma still does not
  come back: it is joined to one string and split into two values.
\<close>

lemma comma_header_lossy:
  "inflateTeamsRuleSettings sample_ParseDuration
     (retype_override_ips (flattenTeamsRuleSettings sample_Duration_String comma_TeamsRuleSettings))
   = Some (NonNil (comma_TeamsRuleSettings\<lparr>AddHeaders := NonNil [''X-Team'' \<mapsto> [''red'', ''blue'']]\<rparr>))"
  apply (simp add: inflateTeamsRuleSettings_def flattenTeamsRuleSettings_def index_map_def
      comma_TeamsRuleSettings_def zero_TeamsRuleSettings_def flattenTeamsL4Override_def
      flattenTeamsRuleBisoAdminControls_def flattenTeamsCheckSessionSettings_def
      flattenTeamsAddHeaders_def inflateTeamsL4Override_def inflateTeamsRuleBisoAdminControls_def
      inflateTeamsCheckSessionSettings_def inflateTeamsAddHeaders_def)
  apply (rule ext)
  apply simp
  done

text \<open>
  A nil header does not come back either: it flattens to the nil interface value, and the
  assertion \<^verbatim>\<open>.(map[string]interface{})\<close> fails. And a header whose list of values is empty
  comes back with the one value \<^verbatim>\<open>""\<close>.
\<close>

lemma nil_header_panics:
  "AddHeaders s = GoNil \<Longrightarrow>
   inflateTeamsRuleSettings pd (retype_override_ips (flattenTeamsRuleSettings ds s)) = None"
proof -
  assume nil: "AddHeaders s = GoNil"
  obtain l4 where l4: "flattenTeamsL4Override (L4Override s) = VList l4"
    using flattenTeamsL4Override_list by blast
  obtain biso where biso: "flattenTeamsRuleBisoAdminControls (BISOAdminControls s) = VList biso"
    using flattenTeamsRuleBisoAdminControls_list by blast
  obtain cs where cs: "flattenTeamsCheckSessionSettings ds (CheckSession s) = VList cs"
    using flattenTeamsCheckSessionSettings_list by blast
  show ?thesis
    by (simp add: inflateTeamsRuleSettings_def flattenTeamsRuleSettings_def index_map_def
        l4 biso cs nil flattenTeamsAddHeaders_def)
qed

lemma empty_header_value_lossy:
  "Option.bind (inflateTeamsAddHeaders (flattenTeamsAddHeaders (NonNil [''X-Team'' \<mapsto> []])))
     (\<lambda>h. case h of GoNil \<Rightarrow> None | NonNil m \<Rightarrow> m ''X-Team'') = Some [[]]"
  by (simp add: inflateTeamsAddHeaders_def flattenTeamsAddHeaders_def)




section \<open>The read and the requests of the operations\<close>

lemmas sample_defs = sample_environment_def store_TeamsRule_def store_TeamsCreateRule_def
  store_TeamsUpdateRule_def store_TeamsDeleteRule_def sample_TeamsRule_def sample_attrs_def
  new_ResourceData_def stored_ResourceData_def empty_world_def stored_world_def
  sample_hashCodeString_def sample_ParseDuration_def sample_Duration_String_def
  zero_TeamsRuleSettings_def anonymous_ResourceData_def nameless_ResourceData_def
  nameless_TeamsRule_def import_ResourceData_def

lemmas op_defs = resourceCloudflareTeamsRuleRead_def resourceCloudflareTeamsRuleCreate_def
  resourceCloudflareTeamsRuleUpdate_def resourceCloudflareTeamsRuleDelete_def
  resourceCloudflareTeamsRuleImport_def Create_newTeamsRule_def Update_teamsRule_def
  call_TeamsRule_def call_TeamsCreateRule_def call_TeamsUpdateRule_def call_TeamsDeleteRule_def
  d_Get_def d_Set_def d_SetId_def index_map_def diag_FromErr_def
  inflateTeamsRuleSettings_def flattenTeamsRuleSettings_def providerToApiRulePrecedence_def
  apiToProviderRulePrecedence_def strings_SplitN2_def

lemma assert_string_Some: "assert_string v = Some s \<longleftrightarrow> v = VString s"
  by (cases v) auto

lemma d_Set_keeps:
  "d_Set sch d key v = Inr d' \<Longrightarrow>
   Id d' = Id d \<and> (\<forall>k. k \<noteq> key \<longrightarrow> attrs d' k = attrs d k)"
  by (auto simp add: d_Set_def split: sum.splits)

lemma Read_error:
  assumes "d_Get d ''account_id'' = VString accountID"
    and "client_TeamsRule env accountID (Id d) (server w) = (Inl err, c)"
  shows "resourceCloudflareTeamsRuleRead env d w =
     (if strings_Contains (Error err) ''invalid rule id''
      then Some ([], d\<lparr>Id := []\<rparr>, \<lparr>server = c, calls = calls w @ [Call_TeamsRule accountID (Id d)]\<rparr>)
      else Some ([\<lparr>Severity = SeverityError,
                  Summary = ''error finding Teams Rule '' @ env_Quote env (Id d) @ '': '' @ Error err\<rparr>],
             d, \<lparr>server = c, calls = calls w @ [Call_TeamsRule accountID (Id d)]\<rparr>))"
  using assms
  by (simp add: resourceCloudflareTeamsRuleRead_def call_TeamsRule_def d_SetId_def diag_FromErr_def)

lemma Read_found:
  assumes "d_Get d ''account_id'' = VString accountID"
    and "client_TeamsRule env accountID (Id d) (server w) = (Inr rule, c)"
  shows "\<exists>diags d'. resourceCloudflareTeamsRuleRead env d w =
       Some (diags, d', \<lparr>server = c, calls = calls w @ [Call_TeamsRule accountID (Id d)]\<rparr>)
     \<and> Id d' = Id d \<and> attrs d' ''account_id'' = attrs d ''account_id''"
  using assms
  apply (simp add: resourceCloudflareTeamsRuleRead_def call_TeamsRule_def)
  apply (auto split: sum.splits dest!: d_Set_keeps)
  done

lemma Read_result:
  assumes "d_Get d ''account_id'' = VString accountID"
    and "client_TeamsRule env accountID (Id d) (server w) = (res, c)"
  shows "\<exists>diags d'. resourceCloudflareTeamsRuleRead env d w =
       Some (diags, d', \<lparr>server = c, calls = calls w @ [Call_TeamsRule accountID (Id d)]\<rparr>)
     \<and> attrs d' ''account_id'' = attrs d ''account_id''
     \<and> Id d' = (if \<exists>err. res = Inl err \<and> strings_Contains (Error err) ''invalid rule id''
                then [] else Id d)"
proof (cases res)
  case (Inl err)
  with Read_error [OF assms(1), of env w err c] assms(2) show ?thesis
    by simp
next
  case (Inr rule)
  with Read_found [OF assms(1), of env w rule c] assms(2) show ?thesis
    by auto
qed

lemma Read_calls:
  assumes "resourceCloudflareTeamsRuleRead env d w = Some (diags, d', w')"
  shows "\<exists>accountID. d_Get d ''account_id'' = VString accountID
     \<and> calls w' = calls w @ [Call_TeamsRule accountID (Id d)]"
proof -
  from assms obtain accountID where acc: "d_Get d ''account_id'' = VString accountID"
    by (auto simp add: resourceCloudflareTeamsRuleRead_def assert_string_Some split: bind_splits)
  obtain res c where "client_TeamsRule env accountID (Id d) (server w) = (res, c)"
    by (cases "client_TeamsRule env accountID (Id d) (server w)")
  from Read_result [OF acc this] assms acc show ?thesis
    by auto
qed

lemma Create_newTeamsRule_account:
  "Create_newTeamsRule env d = Some (accountID, newTeamsRule) \<Longrightarrow>
   d_Get d ''account_id'' = VString accountID"
  by (auto simp add: Create_newTeamsRule_def assert_string_Some Let_def split: bind_splits)

lemma Update_teamsRule_account:
  "Update_teamsRule env d = Some (accountID, teamsRule) \<Longrightarrow>
   d_Get d ''account_id'' = VString accountID \<and> ID teamsRule = Id d"
  by (auto simp add: Update_teamsRule_def assert_string_Some Let_def
      split: bind_splits nilable.splits)

text \<open>
  C3. When the client's \<^verbatim>\<open>TeamsRule\<close> call returns an error, the read tells the errors
  apart by the sentinel text: if the error message contains \<^verbatim>\<open>invalid rule id\<close>, the read
  sets the resource ID to the empty string and returns no diagnostics; for every other
  error it returns one diagnostic, whose summary is the original message after the
  context \<^verbatim>\<open>error finding Teams Rule "<id>": \<close>, and leaves the resource data, the ID
  included, as it was.
\<close>

theorem read_error_handling:
  assumes "d_Get d ''account_id'' = VString accountID"
    and "client_TeamsRule env accountID (Id d) (server w) = (Inl err, c)"
  shows "(strings_Contains (Error err) ''invalid rule id'' \<longrightarrow>
            resourceCloudflareTeamsRuleRead env d w =
              Some ([], d\<lparr>Id := []\<rparr>,
                \<lparr>server = c, calls = calls w @ [Call_TeamsRule accountID (Id d)]\<rparr>))
       \<and> (\<not> strings_Contains (Error err) ''invalid rule id'' \<longrightarrow>
            resourceCloudflareTeamsRuleRead env d w =
              Some ([\<lparr>Severity = SeverityError,
                      Summary = ''error finding Teams Rule '' @ env_Quote env (Id d) @ '': ''
                        @ Error err\<rparr>],
                d, \<lparr>server = c, calls = calls w @ [Call_TeamsRule accountID (Id d)]\<rparr>))"
  using Read_error [OF assms] by simp

theorem read_error_handling_witness:
  "resourceCloudflareTeamsRuleRead sample_environment stored_ResourceData empty_world =
     Some ([], stored_ResourceData\<lparr>Id := []\<rparr>,
       \<lparr>server = [], calls = [Call_TeamsRule ''acc-1'' ''rule-7'']\<rparr>)
   \<and> resourceCloudflareTeamsRuleRead sample_environment anonymous_ResourceData stored_world =
     Some ([\<lparr>Severity = SeverityError,
             Summary = ''error finding Teams Rule '' @ [CHR 0x22] @ ''rule-7'' @ [CHR 0x22]
               @ '': HTTP status 403: authentication error''\<rparr>],
       anonymous_ResourceData,
       \<lparr>server = [(''rule-7'', sample_TeamsRule)], calls = [Call_TeamsRule [] ''rule-7'']\<rparr>)"
proof -
  have a1: "d_Get stored_ResourceData ''account_id'' = VString ''acc-1''"
    by (simp add: d_Get_def index_map_def stored_ResourceData_def sample_attrs_def)
  have c1: "client_TeamsRule sample_environment ''acc-1'' (Id stored_ResourceData)
      (server empty_world) = (Inl (Errorf ''HTTP status 400: invalid rule id''), [])"
    by (simp add: sample_environment_def store_TeamsRule_def empty_world_def)
  have a2: "d_Get anonymous_ResourceData ''account_id'' = VString []"
    by (simp add: d_Get_def index_map_def anonymous_ResourceData_def)
  have c2: "client_TeamsRule sample_environment [] (Id anonymous_ResourceData)
      (server stored_world) =
      (Inl (Errorf ''HTTP status 403: authentication error''), [(''rule-7'', sample_TeamsRule)])"
    by (simp add: sample_environment_def store_TeamsRule_def stored_world_def)
  from read_error_handling [OF a1 c1] read_error_handling [OF a2 c2] show ?thesis
    by (simp add: sample_environment_def empty_world_def stored_world_def
        stored_ResourceData_def anonymous_ResourceData_def)
qed

text \<open>
  C6. When the client's \<^verbatim>\<open>TeamsCreateRule\<close> call returns an error, the create returns one
  diagnostic, whose summary is the error's message after the context
  \<^verbatim>\<open>error creating Teams rule for account "<account ID>": \<close>; it leaves the resource data
  as it was, so no resource ID is set; and the create request is the only request it has
  sent: there is no second attempt.
\<close>

theorem create_failure:
  assumes "Create_newTeamsRule env d = Some (accountID, newTeamsRule)"
    and "client_TeamsCreateRule env accountID newTeamsRule (server w) = (Inl err, c)"
  shows "d_Get d ''account_id'' = VString accountID
       \<and> resourceCloudflareTeamsRuleCreate env d w =
           Some ([\<lparr>Severity = SeverityError,
                   Summary = ''error creating Teams rule for account '' @ env_Quote env accountID
                     @ '': '' @ Error err\<rparr>],
             d, \<lparr>server = c, calls = calls w @ [Call_TeamsCreateRule accountID newTeamsRule]\<rparr>)"
  using assms Create_newTeamsRule_account [OF assms(1)]
  by (simp add: resourceCloudflareTeamsRuleCreate_def call_TeamsCreateRule_def diag_FromErr_def)

theorem create_failure_witness:
  "Create_newTeamsRule sample_environment nameless_ResourceData = Some (''acc-1'', nameless_TeamsRule)
   \<and> resourceCloudflareTeamsRuleCreate sample_environment nameless_ResourceData empty_world =
       Some ([\<lparr>Severity = SeverityError,
               Summary = ''error creating Teams rule for account '' @ [CHR 0x22] @ ''acc-1''
                 @ [CHR 0x22] @ '': HTTP status 400: rule name is required''\<rparr>],
         nameless_ResourceData,
         \<lparr>server = [], calls = [Call_TeamsCreateRule ''acc-1'' nameless_TeamsRule]\<rparr>)"
proof -
  have r: "Create_newTeamsRule sample_environment nameless_ResourceData
      = Some (''acc-1'', nameless_TeamsRule)"
    by (simp add: op_defs sample_defs int64_rem_def rulePrecedenceFactor_def)
  have c: "client_TeamsCreateRule sample_environment ''acc-1'' nameless_TeamsRule
      (server empty_world) = (Inl (Errorf ''HTTP status 400: rule name is required''), [])"
    by (simp add: sample_environment_def store_TeamsCreateRule_def empty_world_def
        nameless_TeamsRule_def)
  from create_failure [OF r c] r show ?thesis
    by (simp add: sample_environment_def empty_world_def)
qed

text \<open>
  C7. The resource that \<open>resourceCloudflareTeamsRule\<close> returns has the schema of
  \<^verbatim>\<open>resourceCloudflareTeamsRuleSchema()\<close>, and its read, update, create and delete contexts
  and its importer's state function are the five functions of the adapter.
\<close>

theorem resource_wiring:
  "Schema (resourceCloudflareTeamsRule resourceCloudflareTeamsRuleSchema)
     = resourceCloudflareTeamsRuleSchema
   \<and> ReadContext (resourceCloudflareTeamsRule resourceCloudflareTeamsRuleSchema)
     = resourceCloudflareTeamsRuleRead
   \<and> UpdateContext (resourceCloudflareTeamsRule resourceCloudflareTeamsRuleSchema)
     = resourceCloudflareTeamsRuleUpdate
   \<and> CreateContext (resourceCloudflareTeamsRule resourceCloudflareTeamsRuleSchema)
     = resourceCloudflareTeamsRuleCreate
   \<and> DeleteContext (resourceCloudflareTeamsRule resourceCloudflareTeamsRuleSchema)
     = resourceCloudflareTeamsRuleDelete
   \<and> Importer_StateContext (resourceCloudflareTeamsRule resourceCloudflareTeamsRuleSchema)
     = resourceCloudflareTeamsRuleImport"
  by (simp add: resourceCloudflareTeamsRule_def)

section \<open>Counting the requests\<close>

lemma Create_calls:
  assumes "resourceCloudflareTeamsRuleCreate env d w = Some (diags, d', w')"
  shows "\<exists>accountID newTeamsRule.
      Create_newTeamsRule env d = Some (accountID, newTeamsRule)
    \<and> ((isl (fst (client_TeamsCreateRule env accountID newTeamsRule (server w)))
         \<and> calls w' = calls w @ [Call_TeamsCreateRule accountID newTeamsRule])
       \<or> (\<exists>rule. fst (client_TeamsCreateRule env accountID newTeamsRule (server w)) = Inr rule
         \<and> calls w' = calls w @ [Call_TeamsCreateRule accountID newTeamsRule,
                                   Call_TeamsRule accountID (ID rule)]))"
proof -
  from assms obtain accountID newTeamsRule
    where req: "Create_newTeamsRule env d = Some (accountID, newTeamsRule)"
    by (auto simp add: resourceCloudflareTeamsRuleCreate_def split: bind_splits)
  obtain res c where resp: "client_TeamsCreateRule env accountID newTeamsRule (server w) = (res, c)"
    by (cases "client_TeamsCreateRule env accountID newTeamsRule (server w)")
  show ?thesis
  proof (cases res)
    case (Inl err)
    with assms req resp show ?thesis
      by (auto simp add: resourceCloudflareTeamsRuleCreate_def call_TeamsCreateRule_def)
  next
    case (Inr rule)
    with assms req resp have
      "resourceCloudflareTeamsRuleRead env (d_SetId d (ID rule))
         \<lparr>server = c, calls = calls w @ [Call_TeamsCreateRule accountID newTeamsRule]\<rparr>
       = Some (diags, d', w')"
      by (simp add: resourceCloudflareTeamsRuleCreate_def call_TeamsCreateRule_def)
    from Read_calls [OF this] Create_newTeamsRule_account [OF req] req resp Inr show ?thesis
      by (auto simp add: d_SetId_def d_Get_def)
  qed
qed

lemma Update_calls:
  assumes "resourceCloudflareTeamsRuleUpdate env d w = Some (diags, d', w')"
  shows "\<exists>accountID teamsRule.
      Update_teamsRule env d = Some (accountID, teamsRule)
    \<and> ((\<not> (\<exists>rule. fst (client_TeamsUpdateRule env accountID (Id d) teamsRule (server w)) = Inr rule
              \<and> ID rule \<noteq> [])
         \<and> calls w' = calls w @ [Call_TeamsUpdateRule accountID (Id d) teamsRule])
       \<or> (\<exists>rule. fst (client_TeamsUpdateRule env accountID (Id d) teamsRule (server w)) = Inr rule
         \<and> ID rule \<noteq> []
         \<and> calls w' = calls w @ [Call_TeamsUpdateRule accountID (Id d) teamsRule,
                                   Call_TeamsRule accountID (Id d)]))"
proof -
  from assms obtain accountID teamsRule
    where req: "Update_teamsRule env d = Some (accountID, teamsRule)"
    by (auto simp add: resourceCloudflareTeamsRuleUpdate_def split: bind_splits)
  note acc = Update_teamsRule_account [OF req]
  obtain res c where resp:
    "client_TeamsUpdateRule env accountID (Id d) teamsRule (server w) = (res, c)"
    by (cases "client_TeamsUpdateRule env accountID (Id d) teamsRule (server w)")
  show ?thesis
  proof (cases res)
    case (Inl err)
    with assms req resp acc show ?thesis
      by (auto simp add: resourceCloudflareTeamsRuleUpdate_def call_TeamsUpdateRule_def)
  next
    case (Inr rule)
    show ?thesis
    proof (cases "ID rule = []")
      case True
      with Inr assms req resp acc show ?thesis
        by (auto simp add: resourceCloudflareTeamsRuleUpdate_def call_TeamsUpdateRule_def)
    next
      case False
      with Inr assms req resp acc have
        "resourceCloudflareTeamsRuleRead env d
           \<lparr>server = c, calls = calls w @ [Call_TeamsUpdateRule accountID (Id d) teamsRule]\<rparr>
         = Some (diags, d', w')"
        by (simp add: resourceCloudflareTeamsRuleUpdate_def call_TeamsUpdateRule_def)
      from Read_calls [OF this] acc req resp Inr False show ?thesis
        by auto
    qed
  qed
qed

lemma Delete_calls:
  assumes "resourceCloudflareTeamsRuleDelete env d w = Some (diags, d', w')"
  shows "\<exists>accountID.
      d_Get d ''account_id'' = VString accountID
    \<and> ((fst (client_TeamsDeleteRule env accountID (Id d) (server w)) \<noteq> None
         \<and> calls w' = calls w @ [Call_TeamsDeleteRule accountID (Id d)])
       \<or> (fst (client_TeamsDeleteRule env accountID (Id d) (server w)) = None
         \<and> calls w' = calls w @ [Call_TeamsDeleteRule accountID (Id d),
                                   Call_TeamsRule accountID (Id d)]))"
proof -
  from assms obtain accountID where acc: "d_Get d ''account_id'' = VString accountID"
    by (auto simp add: resourceCloudflareTeamsRuleDelete_def assert_string_Some Let_def
        split: bind_splits)
  obtain res c where resp: "client_TeamsDeleteRule env accountID (Id d) (server w) = (res, c)"
    by (cases "client_TeamsDeleteRule env accountID (Id d) (server w)")
  show ?thesis
  proof (cases res)
    case (Some err)
    with assms acc resp show ?thesis
      by (auto simp add: resourceCloudflareTeamsRuleDelete_def call_TeamsDeleteRule_def Let_def)
  next
    case None
    with assms acc resp have
      "resourceCloudflareTeamsRuleRead env d
         \<lparr>server = c, calls = calls w @ [Call_TeamsDeleteRule accountID (Id d)]\<rparr>
       = Some (diags, d', w')"
      by (simp add: resourceCloudflareTeamsRuleDelete_def call_TeamsDeleteRule_def Let_def)
    from Read_calls [OF this] acc resp None show ?thesis
      by auto
  qed
qed

text \<open>
  The operations return whenever the type assertions on the resource data hold.
\<close>

lemma Create_returns:
  assumes "Create_newTeamsRule env d = Some (accountID, newTeamsRule)"
  shows "\<exists>result. resourceCloudflareTeamsRuleCreate env d w = Some result"
proof -
  obtain res c where resp: "client_TeamsCreateRule env accountID newTeamsRule (server w) = (res, c)"
    by (cases "client_TeamsCreateRule env accountID newTeamsRule (server w)")
  show ?thesis
  proof (cases res)
    case (Inl err)
    with assms resp show ?thesis
      by (simp add: resourceCloudflareTeamsRuleCreate_def call_TeamsCreateRule_def)
  next
    case (Inr rule)
    have acc: "d_Get (d_SetId d (ID rule)) ''account_id'' = VString accountID"
      using Create_newTeamsRule_account [OF assms] by (simp add: d_Get_def d_SetId_def)
    obtain res' c' where "client_TeamsRule env accountID (Id (d_SetId d (ID rule)))
        (server \<lparr>server = c, calls = calls w @ [Call_TeamsCreateRule accountID newTeamsRule]\<rparr>)
        = (res', c')"
      by (cases "client_TeamsRule env accountID (Id (d_SetId d (ID rule))) c") auto
    from Read_result [OF acc this] Inr assms resp show ?thesis
      by (auto simp add: resourceCloudflareTeamsRuleCreate_def call_TeamsCreateRule_def)
  qed
qed

lemma Update_returns:
  assumes "Update_teamsRule env d = Some (accountID, teamsRule)"
  shows "\<exists>result. resourceCloudflareTeamsRuleUpdate env d w = Some result"
proof -
  note acc = Update_teamsRule_account [OF assms]
  obtain res c where resp:
    "client_TeamsUpdateRule env accountID (Id d) teamsRule (server w) = (res, c)"
    by (cases "client_TeamsUpdateRule env accountID (Id d) teamsRule (server w)")
  show ?thesis
  proof (cases res)
    case (Inl err)
    with assms resp acc show ?thesis
      by (simp add: resourceCloudflareTeamsRuleUpdate_def call_TeamsUpdateRule_def)
  next
    case (Inr rule)
    obtain res' c' where "client_TeamsRule env accountID (Id d)
        (server \<lparr>server = c, calls = calls w @ [Call_TeamsUpdateRule accountID (Id d) teamsRule]\<rparr>)
        = (res', c')"
      by (cases "client_TeamsRule env accountID (Id d) c") auto
    from Read_result [OF conjunct1 [OF acc] this] Inr assms resp acc show ?thesis
      by (auto simp add: resourceCloudflareTeamsRuleUpdate_def call_TeamsUpdateRule_def)
  qed
qed

lemma Delete_returns:
  assumes acc: "d_Get d ''account_id'' = VString accountID"
  shows "\<exists>result. resourceCloudflareTeamsRuleDelete env d w = Some result"
proof -
  obtain res c where resp: "client_TeamsDeleteRule env accountID (Id d) (server w) = (res, c)"
    by (cases "client_TeamsDeleteRule env accountID (Id d) (server w)")
  show ?thesis
  proof (cases res)
    case (Some err)
    with acc resp show ?thesis
      by (simp add: resourceCloudflareTeamsRuleDelete_def call_TeamsDeleteRule_def Let_def)
  next
    case None
    obtain res' c' where "client_TeamsRule env accountID (Id d)
        (server \<lparr>server = c, calls = calls w @ [Call_TeamsDeleteRule accountID (Id d)]\<rparr>)
        = (res', c')"
      by (cases "client_TeamsRule env accountID (Id d) c") auto
    from Read_result [OF acc this] None acc resp show ?thesis
      by (auto simp add: resourceCloudflareTeamsRuleDelete_def call_TeamsDeleteRule_def Let_def)
  qed
qed

text \<open>
  C5, as claimed: every one of create, read, update and delete sends exactly one request
  to the client. It fails for a create that succeeds: on fresh resource data and an empty
  store the create sends \<^verbatim>\<open>TeamsCreateRule\<close> and then, through the read that ends it,
  \<^verbatim>\<open>TeamsRule\<close>.
\<close>

theorem create_two_calls_counterexample:
  "map_option (\<lambda>result. calls (snd (snd result)))
     (resourceCloudflareTeamsRuleCreate sample_environment new_ResourceData empty_world)
   = Some [Call_TeamsCreateRule ''acc-1'' (sample_TeamsRule\<lparr>ID := []\<rparr>),
           Call_TeamsRule ''acc-1'' ''rule-block-ads'']
   \<and> map_option (\<lambda>result. length (calls (snd (snd result))))
     (resourceCloudflareTeamsRuleCreate sample_environment new_ResourceData empty_world)
   \<noteq> Some 1"
  by (simp add: op_defs sample_defs int64_rem_def rulePrecedenceFactor_def)

text \<open>
  C5, amended. An invocation that returns has sent one request or two, and never more. The
  read sends exactly one, \<^verbatim>\<open>TeamsRule\<close>. Create, update and delete send exactly one
  changing request (\<^verbatim>\<open>TeamsCreateRule\<close>, \<^verbatim>\<open>TeamsUpdateRule\<close>, \<^verbatim>\<open>TeamsDeleteRule\<close>); when
  the client answers it with an error, or answers the update with a rule whose ID is
  empty, nothing follows; otherwise exactly one \<^verbatim>\<open>TeamsRule\<close> request follows, for the
  read that ends the operation.
\<close>

theorem crud_client_calls:
  "(resourceCloudflareTeamsRuleRead env d w = Some (diags, d', w') \<longrightarrow>
      (\<exists>accountID. calls w' = calls w @ [Call_TeamsRule accountID (Id d)]))
   \<and> (resourceCloudflareTeamsRuleCreate env d w = Some (diags, d', w') \<longrightarrow>
      (\<exists>accountID newTeamsRule.
          (isl (fst (client_TeamsCreateRule env accountID newTeamsRule (server w)))
           \<and> calls w' = calls w @ [Call_TeamsCreateRule accountID newTeamsRule])
        \<or> (\<exists>rule. fst (client_TeamsCreateRule env accountID newTeamsRule (server w)) = Inr rule
           \<and> calls w' = calls w @ [Call_TeamsCreateRule accountID newTeamsRule,
                                     Call_TeamsRule accountID (ID rule)])))
   \<and> (resourceCloudflareTeamsRuleUpdate env d w = Some (diags, d', w') \<longrightarrow>
      (\<exists>accountID teamsRule.
          (\<not> (\<exists>rule. fst (client_TeamsUpdateRule env accountID (Id d) teamsRule (server w))
                  = Inr rule \<and> ID rule \<noteq> [])
           \<and> calls w' = calls w @ [Call_TeamsUpdateRule accountID (Id d) teamsRule])
        \<or> (\<exists>rule. fst (client_TeamsUpdateRule env accountID (Id d) teamsRule (server w))
                  = Inr rule \<and> ID rule \<noteq> []
           \<and> calls w' = calls w @ [Call_TeamsUpdateRule accountID (Id d) teamsRule,
                                     Call_TeamsRule accountID (Id d)])))
   \<and> (resourceCloudflareTeamsRuleDelete env d w = Some (diags, d', w') \<longrightarrow>
      (\<exists>accountID.
          (fst (client_TeamsDeleteRule env accountID (Id d) (server w)) \<noteq> None
           \<and> calls w' = calls w @ [Call_TeamsDeleteRule accountID (Id d)])
        \<or> (fst (client_TeamsDeleteRule env accountID (Id d) (server w)) = None
           \<and> calls w' = calls w @ [Call_TeamsDeleteRule accountID (Id d),
                                     Call_TeamsRule accountID (Id d)])))"
proof (intro conjI impI)
  assume "resourceCloudflareTeamsRuleRead env d w = Some (diags, d', w')"
  from Read_calls [OF this] show "\<exists>accountID. calls w' = calls w @ [Call_TeamsRule accountID (Id d)]"
    by blast
next
  assume "resourceCloudflareTeamsRuleCreate env d w = Some (diags, d', w')"
  from Create_calls [OF this] show "\<exists>accountID newTeamsRule.
          (isl (fst (client_TeamsCreateRule env accountID newTeamsRule (server w)))
           \<and> calls w' = calls w @ [Call_TeamsCreateRule accountID newTeamsRule])
        \<or> (\<exists>rule. fst (client_TeamsCreateRule env accountID newTeamsRule (server w)) = Inr rule
           \<and> calls w' = calls w @ [Call_TeamsCreateRule accountID newTeamsRule,
                                     Call_TeamsRule accountID (ID rule)])"
    by blast
next
  assume "resourceCloudflareTeamsRuleUpdate env d w = Some (diags, d', w')"
  from Update_calls [OF this] show "\<exists>accountID teamsRule.
          (\<not> (\<exists>rule. fst (client_TeamsUpdateRule env accountID (Id d) teamsRule (server w))
                  = Inr rule \<and> ID rule \<noteq> [])
           \<and> calls w' = calls w @ [Call_TeamsUpdateRule accountID (Id d) teamsRule])
        \<or> (\<exists>rule. fst (client_TeamsUpdateRule env accountID (Id d) teamsRule (server w))
                  = Inr rule \<and> ID rule \<noteq> []
           \<and> calls w' = calls w @ [Call_TeamsUpdateRule accountID (Id d) teamsRule,
                                     Call_TeamsRule accountID (Id d)])"
    by blast
next
  assume "resourceCloudflareTeamsRuleDelete env d w = Some (diags, d', w')"
  from Delete_calls [OF this] show "\<exists>accountID.
          (fst (client_TeamsDeleteRule env accountID (Id d) (server w)) \<noteq> None
           \<and> calls w' = calls w @ [Call_TeamsDeleteRule accountID (Id d)])
        \<or> (fst (client_TeamsDeleteRule env accountID (Id d) (server w)) = None
           \<and> calls w' = calls w @ [Call_TeamsDeleteRule accountID (Id d),
                                     Call_TeamsRule accountID (Id d)])"
    by blast
qed

theorem crud_client_calls_witness:
  "(\<exists>diags d' w'.
      resourceCloudflareTeamsRuleRead sample_environment stored_ResourceData stored_world
        = Some (diags, d', w')
      \<and> (\<exists>accountID. calls w' = calls stored_world @ [Call_TeamsRule accountID (Id stored_ResourceData)]))
   \<and> map_option (\<lambda>result. calls (snd (snd result)))
        (resourceCloudflareTeamsRuleRead sample_environment stored_ResourceData stored_world)
      = Some [Call_TeamsRule ''acc-1'' ''rule-7'']
   \<and> map_option (\<lambda>result. calls (snd (snd result)))
        (resourceCloudflareTeamsRuleCreate sample_environment nameless_ResourceData empty_world)
      = Some [Call_TeamsCreateRule ''acc-1'' nameless_TeamsRule]
   \<and> map_option (\<lambda>result. calls (snd (snd result)))
        (resourceCloudflareTeamsRuleUpdate sample_environment stored_ResourceData stored_world)
      = Some [Call_TeamsUpdateRule ''acc-1'' ''rule-7'' sample_TeamsRule,
              Call_TeamsRule ''acc-1'' ''rule-7'']
   \<and> map_option (\<lambda>result. calls (snd (snd result)))
        (resourceCloudflareTeamsRuleDelete sample_environment stored_ResourceData stored_world)
      = Some [Call_TeamsDeleteRule ''acc-1'' ''rule-7'', Call_TeamsRule ''acc-1'' ''rule-7'']"
proof -
  have "\<exists>result. resourceCloudflareTeamsRuleRead sample_environment stored_ResourceData
      stored_world = Some result"
    by (simp add: op_defs sample_defs)
  then obtain diags d' w' where r:
    "resourceCloudflareTeamsRuleRead sample_environment stored_ResourceData stored_world
      = Some (diags, d', w')"
    by (metis prod_cases3)
  with crud_client_calls [of sample_environment stored_ResourceData stored_world diags d' w']
  have "\<exists>accountID. calls w' = calls stored_world @ [Call_TeamsRule accountID (Id stored_ResourceData)]"
    by blast
  with r have read: "\<exists>diags d' w'.
      resourceCloudflareTeamsRuleRead sample_environment stored_ResourceData stored_world
        = Some (diags, d', w')
      \<and> (\<exists>accountID. calls w' = calls stored_world @ [Call_TeamsRule accountID (Id stored_ResourceData)])"
    by blast
  have rd: "map_option (\<lambda>result. calls (snd (snd result)))
        (resourceCloudflareTeamsRuleRead sample_environment stored_ResourceData stored_world)
      = Some [Call_TeamsRule ''acc-1'' ''rule-7'']"
    by (simp add: op_defs sample_defs)
  have cr: "map_option (\<lambda>result. calls (snd (snd result)))
        (resourceCloudflareTeamsRuleCreate sample_environment nameless_ResourceData empty_world)
      = Some [Call_TeamsCreateRule ''acc-1'' nameless_TeamsRule]"
    by (simp add: op_defs sample_defs int64_rem_def rulePrecedenceFactor_def)
  have up: "map_option (\<lambda>result. calls (snd (snd result)))
        (resourceCloudflareTeamsRuleUpdate sample_environment stored_ResourceData stored_world)
      = Some [Call_TeamsUpdateRule ''acc-1'' ''rule-7'' sample_TeamsRule,
              Call_TeamsRule ''acc-1'' ''rule-7'']"
    by (simp add: op_defs sample_defs int64_rem_def rulePrecedenceFactor_def)
  have de: "map_option (\<lambda>result. calls (snd (snd result)))
        (resourceCloudflareTeamsRuleDelete sample_environment stored_ResourceData stored_world)
      = Some [Call_TeamsDeleteRule ''acc-1'' ''rule-7'', Call_TeamsRule ''acc-1'' ''rule-7'']"
    by (simp add: op_defs sample_defs Let_def)
  from read rd cr up de show ?thesis
    by blast
qed

section \<open>Import\<close>

lemma strings_SplitN2_none: "sep \<notin> set s \<Longrightarrow> strings_SplitN2 s sep = [s]"
  by (simp add: strings_SplitN2_def)

lemma takeWhile_first_separator:
  "sep \<notin> set a \<Longrightarrow> takeWhile (\<lambda>c. c \<noteq> sep) (a @ sep # b) = a"
  by (induction a) auto

lemma dropWhile_first_separator:
  "sep \<notin> set a \<Longrightarrow> dropWhile (\<lambda>c. c \<noteq> sep) (a @ sep # b) = sep # b"
  by (induction a) auto

lemma strings_SplitN2_first:
  "sep \<notin> set a \<Longrightarrow> strings_SplitN2 (a @ sep # b) sep = [a, b]"
  by (simp add: strings_SplitN2_def takeWhile_first_separator dropWhile_first_separator)

lemma first_separator:
  "sep \<in> set s \<Longrightarrow> \<exists>a b. s = a @ sep # b \<and> sep \<notin> set a"
  using split_list_first [of sep s] by blast

text \<open>
  C8, as claimed: for an import ID with a \<^verbatim>\<open>/\<close> the import returns no error and the resource
  ID is the remainder after the first \<^verbatim>\<open>/\<close>. It fails when the client does not know the
  rule: importing \<^verbatim>\<open>acc-1/rule-7\<close> from an empty store returns no error, and the resource ID
  is empty, not \<^verbatim>\<open>rule-7\<close>, because the read that ends the import has cleared it.
\<close>

theorem import_counterexample:
  "map_option (\<lambda>result. (isl (fst result), Id (fst (snd result))))
     (resourceCloudflareTeamsRuleImport sample_environment import_ResourceData empty_world)
   = Some (False, [])
   \<and> map_option (\<lambda>result. Id (fst (snd result)))
     (resourceCloudflareTeamsRuleImport sample_environment import_ResourceData empty_world)
   \<noteq> Some ''rule-7''"
  by (simp add: op_defs sample_defs Let_def)

text \<open>
  C8, amended. For an import ID without \<^verbatim>\<open>/\<close> the import returns an error and leaves the
  resource data and the world as they were. For an import ID with a \<^verbatim>\<open>/\<close>, split at the
  first one only, the import returns no error and the one resource it was given; it has
  set \<^verbatim>\<open>account_id\<close> to the prefix (the schema storing a string there as it is) and read
  the rule whose ID is the whole remainder for that account; the resource ID it returns
  is that remainder, unless the read's \<^verbatim>\<open>TeamsRule\<close> call failed with an error containing
  \<^verbatim>\<open>invalid rule id\<close>: then it is empty.
\<close>

theorem import_splits_at_first_slash:
  "(CHR ''/'' \<notin> set (Id d) \<longrightarrow>
      (\<exists>err. resourceCloudflareTeamsRuleImport env d w = Some (Inl err, d, w)))
   \<and> (Id d = accountID @ CHR ''/'' # teamsRuleID \<and> CHR ''/'' \<notin> set accountID
       \<and> env_schema_Set env ''account_id'' (VString accountID) = Inr (VString accountID)
       \<and> client_TeamsRule env accountID teamsRuleID (server w) = (res, c) \<longrightarrow>
      (\<exists>d'. resourceCloudflareTeamsRuleImport env d w =
           Some (Inr [d'], d', \<lparr>server = c, calls = calls w @ [Call_TeamsRule accountID teamsRuleID]\<rparr>)
         \<and> d_Get d' ''account_id'' = VString accountID
         \<and> Id d' = (if \<exists>err. res = Inl err \<and> strings_Contains (Error err) ''invalid rule id''
                    then [] else teamsRuleID)))"
proof (intro conjI impI)
  assume "CHR ''/'' \<notin> set (Id d)"
  then show "\<exists>err. resourceCloudflareTeamsRuleImport env d w = Some (Inl err, d, w)"
    by (simp add: resourceCloudflareTeamsRuleImport_def strings_SplitN2_none)
next
  assume a: "Id d = accountID @ CHR ''/'' # teamsRuleID \<and> CHR ''/'' \<notin> set accountID
       \<and> env_schema_Set env ''account_id'' (VString accountID) = Inr (VString accountID)
       \<and> client_TeamsRule env accountID teamsRuleID (server w) = (res, c)"
  let ?d2 = "d\<lparr>attrs := (attrs d)(''account_id'' \<mapsto> VString accountID), Id := teamsRuleID\<rparr>"
  have acc: "d_Get ?d2 ''account_id'' = VString accountID"
    by (simp add: d_Get_def index_map_def)
  have resp: "client_TeamsRule env accountID (Id ?d2) (server w) = (res, c)"
    using a by simp
  from Read_result [OF acc resp] obtain diags d' where
    r: "resourceCloudflareTeamsRuleRead env ?d2 w =
       Some (diags, d', \<lparr>server = c, calls = calls w @ [Call_TeamsRule accountID (Id ?d2)]\<rparr>)"
    and k: "attrs d' ''account_id'' = attrs ?d2 ''account_id''"
    and i: "Id d' = (if \<exists>err. res = Inl err \<and> strings_Contains (Error err) ''invalid rule id''
                then [] else Id ?d2)"
    by blast
  have "resourceCloudflareTeamsRuleImport env d w =
      Some (Inr [d'], d', \<lparr>server = c, calls = calls w @ [Call_TeamsRule accountID teamsRuleID]\<rparr>)"
    using a r
    by (simp add: resourceCloudflareTeamsRuleImport_def strings_SplitN2_first d_Set_def d_SetId_def)
  moreover have "d_Get d' ''account_id'' = VString accountID"
    using k by (simp add: d_Get_def index_map_def)
  moreover have "Id d' = (if \<exists>err. res = Inl err \<and> strings_Contains (Error err) ''invalid rule id''
                    then [] else teamsRuleID)"
    using i by (simp cong: if_cong)
  ultimately show "\<exists>d'. resourceCloudflareTeamsRuleImport env d w =
           Some (Inr [d'], d', \<lparr>server = c, calls = calls w @ [Call_TeamsRule accountID teamsRuleID]\<rparr>)
         \<and> d_Get d' ''account_id'' = VString accountID
         \<and> Id d' = (if \<exists>err. res = Inl err \<and> strings_Contains (Error err) ''invalid rule id''
                    then [] else teamsRuleID)"
    by blast
qed

theorem import_splits_at_first_slash_witness:
  "(\<exists>err. resourceCloudflareTeamsRuleImport sample_environment stored_ResourceData stored_world
       = Some (Inl err, stored_ResourceData, stored_world))
   \<and> (\<exists>d'. resourceCloudflareTeamsRuleImport sample_environment import_ResourceData stored_world
         = Some (Inr [d'], d',
             \<lparr>server = [(''rule-7'', sample_TeamsRule)],
              calls = [Call_TeamsRule ''acc-1'' ''rule-7'']\<rparr>)
       \<and> d_Get d' ''account_id'' = VString ''acc-1''
       \<and> Id d' = ''rule-7'')"
proof -
  have no_slash: "CHR ''/'' \<notin> set (Id stored_ResourceData)"
    by (simp add: stored_ResourceData_def)
  have slash: "Id import_ResourceData = ''acc-1'' @ CHR ''/'' # ''rule-7''
      \<and> CHR ''/'' \<notin> set ''acc-1''
      \<and> env_schema_Set sample_environment ''account_id'' (VString ''acc-1'') = Inr (VString ''acc-1'')
      \<and> client_TeamsRule sample_environment ''acc-1'' ''rule-7'' (server stored_world)
         = (Inr sample_TeamsRule, [(''rule-7'', sample_TeamsRule)])"
    by (simp add: import_ResourceData_def sample_environment_def store_TeamsRule_def
        stored_world_def)
  from no_slash
    import_splits_at_first_slash [where d = stored_ResourceData and env = sample_environment
      and w = stored_world]
  have first: "\<exists>err. resourceCloudflareTeamsRuleImport sample_environment stored_ResourceData
      stored_world = Some (Inl err, stored_ResourceData, stored_world)"
    by blast
  from slash
    import_splits_at_first_slash [where d = import_ResourceData and env = sample_environment
      and w = stored_world and accountID = "''acc-1''" and teamsRuleID = "''rule-7''"
      and res = "Inr sample_TeamsRule" and c = "[(''rule-7'', sample_TeamsRule)]"]
  have "\<exists>d'. resourceCloudflareTeamsRuleImport sample_environment import_ResourceData stored_world
         = Some (Inr [d'], d',
             \<lparr>server = [(''rule-7'', sample_TeamsRule)],
              calls = calls stored_world @ [Call_TeamsRule ''acc-1'' ''rule-7'']\<rparr>)
       \<and> d_Get d' ''account_id'' = VString ''acc-1''
       \<and> Id d' = ''rule-7''"
    by simp
  with first show ?thesis
    by (simp add: stored_world_def)
qed

end
